theory Spec2Isabelle
  imports Complex_Main "HOL-Library.AList"
begin

section \<open>Conventions of the embedding\<close>

text \<open>
  The development embeds three TypeScript modules of the repository: the k6 output
  sanitizer (\<^verbatim>\<open>src/adapters/load/sanitizer.ts\<close>), the merge utility
  (\<^verbatim>\<open>deepMerge\<close>, \<^verbatim>\<open>isObject\<close>) and the adapter pipeline
  (\<^verbatim>\<open>AdapterPipeline\<close>).

  \<^item> A JavaScript string is modelled by the bytes of its UTF-8 encoding, so a letter with
    an accent is two \<^typ>\<open>char\<close>s; concatenation and equality of well-formed strings
    are concatenation and equality of these byte lists.
  \<^item> A metric value is an IEEE 754 double: a finite value, an infinity or \<^verbatim>\<open>NaN\<close>,
    with sums and quotients rounded to the nearest double, ties to even. The two
    zeros are one value; nothing in the sanitizer tells them apart. A number in a
    configuration tree is only tested for being zero and is a \<^typ>\<open>real\<close>.
  \<^item> A \<^verbatim>\<open>Map\<close> and a plain object used as a dictionary are association lists in
    insertion order; writing an existing key keeps its position
    (\<^const>\<open>AList.update\<close>), as both do in JavaScript for keys that are not array
    indices. A JavaScript object never holds a key twice, so statements about such
    lists assume distinct keys where that matters.
  \<^item> An object is represented by its own enumerable properties. A property read also
    finds the members inherited from \<^verbatim>\<open>Object.prototype\<close>. An assignment
    \<^verbatim>\<open>ob[key] = v\<close> writes an own property, except for the key \<^verbatim>\<open>__proto__\<close> on an
    object without an own property of that name: there it runs the inherited setter,
    which writes no own property and replaces the prototype when \<open>v\<close> is an object or
    \<^verbatim>\<open>null\<close>. The prototype itself is not represented, so a statement that reads
    through the prototype of a merged object assumes it has not been replaced.
  \<^item> A promise is represented by the scheduler turn at which it was created, the turn
    at which it settles and its outcome. Synchronous code takes no turn; the clock
    only moves while \<^verbatim>\<open>run\<close> is suspended in an \<^verbatim>\<open>await\<close>.
\<close>

section \<open>Numbers\<close>

text \<open>A JavaScript number. \<open>Finite x\<close> is the double whose value is \<open>x\<close>.\<close>

datatype double = Finite real | PosInf | NegInf | NaN

text \<open>The integer part of the binary logarithm of a positive natural number.\<close>

fun log2n :: "nat \<Rightarrow> nat" where
  "log2n n = (if n < 2 then 0 else Suc (log2n (n div 2)))"

declare log2n.simps [simp del]

text \<open>The power of two with the integer exponent \<open>d\<close>.\<close>

definition pow2 :: "int \<Rightarrow> real" where
  "pow2 d = (if 0 \<le> d then 2 ^ nat d else 1 / 2 ^ nat (- d))"

text \<open>
  The binary exponent of a positive real \<open>a\<close>: the integer \<open>e\<close> with
  \<open>pow2 e \<le> a < pow2 (e + 1)\<close>. Below one it is read off the reciprocal, rounded up.
\<close>

definition ilog2 :: "real \<Rightarrow> int" where
  "ilog2 a =
     (if 1 \<le> a then int (log2n (nat \<lfloor>a\<rfloor>))
      else - int (Suc (log2n (nat (- \<lfloor>- (1 / a)\<rfloor>) - 1))))"

text \<open>The nearest integer; a tie goes to the even one.\<close>

definition roundHalfEven :: "real \<Rightarrow> int" where
  "roundHalfEven q =
     (let f = \<lfloor>q\<rfloor>; d = q - of_int f
      in if d < 1 / 2 then f
         else if 1 / 2 < d then f + 1
         else if even f then f else f + 1)"

text \<open>
  Rounding of an exact result to a double (IEEE 754 binary64, round to nearest, ties
  to even). With \<open>e\<close> the exponent of the absolute value, and \<open>-1022\<close> for a
  subnormal result, one unit in the last place is \<open>pow2 (e - 52)\<close>. The absolute
  value divided by that unit is rounded to an integer \<open>n\<close>, at most \<open>2 ^ 53\<close>. The
  result is \<open>n\<close> units, or an infinity when that reaches \<open>pow2 1024\<close>.
\<close>

definition roundDouble :: "real \<Rightarrow> double" where
  "roundDouble x =
     (if x = 0 then Finite 0
      else let a = \<bar>x\<bar>;
               e = max (ilog2 a) (- 1022);
               n = roundHalfEven (a / pow2 (e - 52))
           in if 1023 < e \<or> (e = 1023 \<and> n = 2 ^ 53)
              then (if 0 < x then PosInf else NegInf)
              else Finite ((if 0 < x then 1 else - 1) * of_int n * pow2 (e - 52)))"

text \<open>The operator \<^verbatim>\<open>+\<close> on two numbers.\<close>

fun numberAdd :: "double \<Rightarrow> double \<Rightarrow> double" where
  "numberAdd NaN y = NaN"
| "numberAdd x NaN = NaN"
| "numberAdd PosInf NegInf = NaN"
| "numberAdd NegInf PosInf = NaN"
| "numberAdd PosInf y = PosInf"
| "numberAdd x PosInf = PosInf"
| "numberAdd NegInf y = NegInf"
| "numberAdd x NegInf = NegInf"
| "numberAdd (Finite a) (Finite b) = roundDouble (a + b)"

text \<open>
  The operator \<^verbatim>\<open>/\<close> with the length of an array as divisor. A length is a
  non-negative integer below \<open>2 ^ 32\<close>, hence a double; dividing by the length \<open>0\<close>
  gives \<^verbatim>\<open>NaN\<close> for zero and an infinity of the same sign otherwise.
\<close>

fun divideByLength :: "double \<Rightarrow> nat \<Rightarrow> double" where
  "divideByLength NaN n = NaN"
| "divideByLength PosInf n = PosInf"
| "divideByLength NegInf n = NegInf"
| "divideByLength (Finite a) n =
     (if n = 0 then (if a = 0 then NaN else if 0 < a then PosInf else NegInf)
      else roundDouble (a / real n))"

text \<open>The comparison \<^verbatim>\<open><\<close> on two numbers; it is false when either is \<^verbatim>\<open>NaN\<close>.\<close>

fun dless :: "double \<Rightarrow> double \<Rightarrow> bool" where
  "dless NaN y = False"
| "dless x NaN = False"
| "dless PosInf y = False"
| "dless NegInf NegInf = False"
| "dless NegInf y = True"
| "dless (Finite a) PosInf = True"
| "dless (Finite a) NegInf = False"
| "dless (Finite a) (Finite b) = (a < b)"

text \<open>
  \<^verbatim>\<open>Math.min(...values)\<close>: it starts from \<^verbatim>\<open>Infinity\<close>, takes every smaller argument in
  turn, and is \<^verbatim>\<open>NaN\<close> as soon as an argument is. \<^verbatim>\<open>Math.max\<close> is its mirror
  image. The limit an engine puts on the number of spread arguments is not modelled.
\<close>

definition lower :: "double \<Rightarrow> double \<Rightarrow> double" where
  "lower lowest v = (if lowest = NaN \<or> v = NaN then NaN else if dless v lowest then v else lowest)"

definition mathMin :: "double list \<Rightarrow> double" where
  "mathMin vs = foldl lower PosInf vs"

definition higher :: "double \<Rightarrow> double \<Rightarrow> double" where
  "higher highest v =
     (if highest = NaN \<or> v = NaN then NaN else if dless highest v then v else highest)"

definition mathMax :: "double list \<Rightarrow> double" where
  "mathMax vs = foldl higher NegInf vs"

section \<open>Sanitizer: data model\<close>

text \<open>\<^verbatim>\<open>K6Metric.data.type\<close>: \<^verbatim>\<open>'gauge' | 'counter' | 'trend' | 'rate'\<close>.\<close>

datatype metricType = Gauge | Counter | Trend | Rate

text \<open>The string the tag stands for; \<^verbatim>\<open>MetricReport.type\<close> is a plain string.\<close>

fun typeName :: "metricType \<Rightarrow> string" where
  "typeName Gauge = ''gauge''"
| "typeName Counter = ''counter''"
| "typeName Trend = ''trend''"
| "typeName Rate = ''rate''"

text \<open>\<^verbatim>\<open>K6Metric.data.contains\<close>: \<^verbatim>\<open>'default' | 'time' | 'data'\<close>.\<close>

datatype contains = Default | Time | Data

text \<open>
  \<^verbatim>\<open>K6Metric.data\<close>, its fields prefixed with \<open>data_\<close>. The fields \<^verbatim>\<open>thresholds\<close>
  and \<^verbatim>\<open>submetrics\<close> are never read by the sanitizer and are left out.
\<close>

record metricData =
  data_name :: string
  data_type :: metricType
  data_contains :: contains

text \<open>\<^verbatim>\<open>K6Point.data\<close>, its fields prefixed with \<open>data_\<close>.\<close>

record pointData =
  data_time :: string
  data_value :: double
  data_tags :: "(string \<times> string) list"

text \<open>
  \<^verbatim>\<open>K6Output = K6Metric | K6Point\<close>, discriminated by the \<^verbatim>\<open>type\<close> field. The first
  argument is the event's top-level \<^verbatim>\<open>metric\<close> field, the second its \<^verbatim>\<open>data\<close>.
\<close>

datatype k6Output = Metric string metricData | Point string pointData

text \<open>\<^verbatim>\<open>new Date(s)\<close>, kept symbolic: the date object built from the string \<open>s\<close>.\<close>

datatype date = NewDate string

text \<open>An element of \<^verbatim>\<open>MetricReport.points\<close> (\<open>value'\<close> is its \<^verbatim>\<open>value\<close>).\<close>

record reportPoint =
  time :: string
  timestamp :: date
  value' :: double
  tags :: "(string \<times> string) list"

text \<open>\<^verbatim>\<open>MetricReport.summary\<close> (\<open>min'\<close> and \<open>max'\<close> are its \<^verbatim>\<open>min\<close> and \<^verbatim>\<open>max\<close>).\<close>

record summary =
  count :: nat
  avg :: double
  min' :: double
  max' :: double

text \<open>
  What \<^verbatim>\<open>getMetricDescription\<close> evaluates to: a string, or, for a name that the
  object literal inherits from \<^verbatim>\<open>Object.prototype\<close>, that inherited member
  (a function or the prototype object, never a string).
\<close>

datatype description = Text string | InheritedMember string

text \<open>\<^verbatim>\<open>MetricReport\<close>; the optional fields \<^verbatim>\<open>unit\<close> and \<^verbatim>\<open>summary\<close> are options.\<close>

record metricReport =
  name :: string
  type :: string
  description :: description
  unit :: "string option"
  points :: "reportPoint list"
  summary :: "summary option"

text \<open>The private field \<^verbatim>\<open>metrics: Map<string, MetricReport>\<close>, in insertion order.\<close>

type_synonym metrics = "(string \<times> metricReport) list"

section \<open>Sanitizer: operations\<close>

text \<open>
  \<^verbatim>\<open>getUnitFromContains\<close>: a lookup in \<^verbatim>\<open>{ time: 'ms', data: 'bytes' }\<close>, which is
  \<^verbatim>\<open>undefined\<close> for \<^verbatim>\<open>'default'\<close>.
\<close>

fun getUnitFromContains :: "contains \<Rightarrow> string option" where
  "getUnitFromContains Time = Some ''ms''"
| "getUnitFromContains Data = Some ''bytes''"
| "getUnitFromContains Default = None"

text \<open>The UTF-8 bytes of the accented letters that occur in the description table.\<close>

definition a_acute :: string where "a_acute = [CHR 0xC3, CHR 0xA1]"
definition e_acute :: string where "e_acute = [CHR 0xC3, CHR 0xA9]"
definition o_acute :: string where "o_acute = [CHR 0xC3, CHR 0xB3]"
definition u_acute :: string where "u_acute = [CHR 0xC3, CHR 0xBA]"

text \<open>The object literal \<^verbatim>\<open>descriptions\<close> of \<^verbatim>\<open>getMetricDescription\<close>, entry by entry.\<close>

definition descriptions :: "(string \<times> string) list" where
  "descriptions =
    [(''vus'', ''Virtual Users - N'' @ u_acute @ ''mero de usuarios virtuales activos''),
     (''vus_max'', ''Virtual Users Max - M'' @ a_acute @ ''ximo n'' @ u_acute
        @ ''mero de usuarios virtuales permitidos''),
     (''http_reqs'', ''HTTP Requests - Total de peticiones HTTP realizadas''),
     (''http_req_duration'', ''HTTP Request Duration - Duraci'' @ o_acute
        @ ''n de las peticiones HTTP''),
     (''http_req_blocked'', ''HTTP Request Blocked - Tiempo bloqueado en la petici''
        @ o_acute @ ''n''),
     (''http_req_connecting'', ''HTTP Request Connecting - Tiempo de conexi'' @ o_acute @ ''n''),
     (''http_req_tls_handshaking'', ''HTTP Request TLS Handshaking - Tiempo de handshake TLS''),
     (''http_req_sending'', ''HTTP Request Sending - Tiempo enviando datos''),
     (''http_req_waiting'', ''HTTP Request Waiting - Tiempo esperando respuesta''),
     (''http_req_receiving'', ''HTTP Request Receiving - Tiempo recibiendo datos''),
     (''http_req_failed'', ''HTTP Requests Failed - Porcentaje de peticiones fallidas''),
     (''checks'', ''Checks - Verificaciones realizadas y su estado''),
     (''data_sent'', ''Data Sent - Bytes enviados''),
     (''data_received'', ''Data Received - Bytes recibidos''),
     (''iteration_duration'', ''Iteration Duration - Duraci'' @ o_acute @ ''n de cada iteraci''
        @ o_acute @ ''n''),
     (''iterations'', ''Iterations - Total de iteraciones completadas'')]"

text \<open>
  The property names every object literal inherits from \<^verbatim>\<open>Object.prototype\<close>
  (ECMAScript, with the legacy accessors of its Annex B). Reading one of them from
  \<^verbatim>\<open>descriptions\<close> finds the inherited member, which is truthy.
\<close>

definition objectPrototypeKeys :: "string list" where
  "objectPrototypeKeys =
    [''constructor'', ''hasOwnProperty'', ''isPrototypeOf'', ''propertyIsEnumerable'',
     ''toLocaleString'', ''toString'', ''valueOf'', ''__proto__'',
     ''__defineGetter__'', ''__defineSetter__'', ''__lookupGetter__'', ''__lookupSetter__'']"

text \<open>The prefix of the template literal in the fallback branch.\<close>

definition fallbackPrefix :: string where
  "fallbackPrefix = ''M'' @ e_acute @ ''trica: ''"

text \<open>
  The property read \<^verbatim>\<open>descriptions[name]\<close>: an own entry of the literal, else the
  member inherited under that name, else \<^verbatim>\<open>undefined\<close> (\<^const>\<open>None\<close>).
\<close>

definition descriptionsAt :: "string \<Rightarrow> description option" where
  "descriptionsAt n =
     (case map_of descriptions n of
        Some d \<Rightarrow> Some (Text d)
      | None \<Rightarrow> if n \<in> set objectPrototypeKeys then Some (InheritedMember n) else None)"

text \<open>
  \<^verbatim>\<open>getMetricDescription\<close>: \<^verbatim>\<open>descriptions[name] || `M<e-acute>trica: ${name}`\<close>. The
  left operand is returned when it is truthy: a non-empty string, or an inherited
  member, which is a function or an object.
\<close>

definition getMetricDescription :: "string \<Rightarrow> description" where
  "getMetricDescription n =
     (case descriptionsAt n of
        Some (Text d) \<Rightarrow> if d \<noteq> [] then Text d else Text (fallbackPrefix @ n)
      | Some (InheritedMember m) \<Rightarrow> InheritedMember m
      | None \<Rightarrow> Text (fallbackPrefix @ n))"

text \<open>
  \<^verbatim>\<open>addMetricDefinition\<close>: registers the skeleton of a report under
  \<^verbatim>\<open>metric.data.name\<close> unless the map already has that name.
\<close>

definition addMetricDefinition :: "metricData \<Rightarrow> metrics \<Rightarrow> metrics" where
  "addMetricDefinition d ms =
     (let u = getUnitFromContains (data_contains d) in
      if map_of ms (data_name d) = None
      then AList.update (data_name d)
             \<lparr>name = data_name d, type = typeName (data_type d),
              description = getMetricDescription (data_name d), unit = u,
              points = [], summary = None\<rparr> ms
      else ms)"

text \<open>The report that \<^verbatim>\<open>addDataPoint\<close> creates for a name the map does not have.\<close>

definition implicitMetric :: "string \<Rightarrow> metricReport" where
  "implicitMetric metricName =
     \<lparr>name = metricName, type = ''unknown'',
      description = getMetricDescription metricName, unit = None,
      points = [], summary = None\<rparr>"

text \<open>The object pushed onto \<^verbatim>\<open>metric.points\<close>.\<close>

definition toReportPoint :: "pointData \<Rightarrow> reportPoint" where
  "toReportPoint d =
     \<lparr>time = data_time d, timestamp = NewDate (data_time d),
      value' = data_value d, tags = data_tags d\<rparr>"

text \<open>
  \<^verbatim>\<open>addDataPoint\<close>: creates the report for \<^verbatim>\<open>point.metric\<close> if the map lacks it,
  then pushes the point onto the points of the report stored under that name
  (a mutation of the stored object: \<^const>\<open>AList.map_entry\<close>).
\<close>

definition addDataPoint :: "string \<Rightarrow> pointData \<Rightarrow> metrics \<Rightarrow> metrics" where
  "addDataPoint metricName d ms =
     (let ms' = (if map_of ms metricName = None
                 then AList.update metricName (implicitMetric metricName) ms
                 else ms)
      in AList.map_entry metricName
           (\<lambda>metric. metric\<lparr>points := points metric @ [toReportPoint d]\<rparr>) ms')"

text \<open>The first \<^verbatim>\<open>forEach\<close> of \<^verbatim>\<open>processData\<close>: definition events only.\<close>

fun definitionPass :: "k6Output list \<Rightarrow> metrics \<Rightarrow> metrics" where
  "definitionPass [] ms = ms"
| "definitionPass (Metric m d # items) ms = definitionPass items (addMetricDefinition d ms)"
| "definitionPass (Point m d # items) ms = definitionPass items ms"

text \<open>The second \<^verbatim>\<open>forEach\<close> of \<^verbatim>\<open>processData\<close>: point events only.\<close>

fun pointPass :: "k6Output list \<Rightarrow> metrics \<Rightarrow> metrics" where
  "pointPass [] ms = ms"
| "pointPass (Point m d # items) ms = pointPass items (addDataPoint m d ms)"
| "pointPass (Metric m d # items) ms = pointPass items ms"

text \<open>
  The summary object of \<^verbatim>\<open>calculateSummaries\<close> for the values of a report:
  \<^verbatim>\<open>values.reduce((a, b) => a + b, 0) / values.length\<close> adds from the left,
  starting at \<open>0\<close>.
\<close>

definition summaryOf :: "double list \<Rightarrow> summary" where
  "summaryOf vs =
     \<lparr>count = length vs,
      avg = divideByLength (foldl numberAdd (Finite 0) vs) (length vs),
      min' = mathMin vs,
      max' = mathMax vs\<rparr>"

text \<open>The body of the \<^verbatim>\<open>forEach\<close> in \<^verbatim>\<open>calculateSummaries\<close>.\<close>

definition summarize :: "metricReport \<Rightarrow> metricReport" where
  "summarize metric =
     (if length (points metric) > 0
      then metric\<lparr>summary := Some (summaryOf (map value' (points metric)))\<rparr>
      else metric)"

definition calculateSummaries :: "metrics \<Rightarrow> metrics" where
  "calculateSummaries ms = map (\<lambda>(k, metric). (k, summarize metric)) ms"

text \<open>\<^verbatim>\<open>processData\<close>, from the empty map of a new instance.\<close>

definition processData :: "k6Output list \<Rightarrow> metrics" where
  "processData rawData = calculateSummaries (pointPass rawData (definitionPass rawData []))"

text \<open>The instance: its two private fields. The constructor runs \<^verbatim>\<open>processData\<close>.\<close>

record sanitizer =
  rawData :: "k6Output list"
  metrics :: metrics

definition K6OutputSanitizer :: "k6Output list \<Rightarrow> sanitizer" where
  "K6OutputSanitizer rawOutput = \<lparr>rawData = rawOutput, metrics = processData rawOutput\<rparr>"

definition getSanitizedOutput :: "sanitizer \<Rightarrow> metricReport list" where
  "getSanitizedOutput this = map snd (metrics this)"

definition getMetricByName :: "sanitizer \<Rightarrow> string \<Rightarrow> metricReport option" where
  "getMetricByName this n = map_of (metrics this) n"

text \<open>An entry of the object \<^verbatim>\<open>toMinimalOutput\<close> returns.\<close>

record minimalEntry =
  msummary :: "summary option"
  lastValue :: "double option"
  munit :: "string option"

text \<open>
  \<^verbatim>\<open>metric.points[metric.points.length - 1]?.value\<close>: index \<open>-1\<close> of an empty array
  is \<^verbatim>\<open>undefined\<close>, and the optional chaining passes it on.
\<close>

definition lastPointValue :: "reportPoint list \<Rightarrow> double option" where
  "lastPointValue ps =
     (if length ps = 0 then None else Some (value' (ps ! (length ps - 1))))"

text \<open>
  The assignment \<^verbatim>\<open>ob[key] = v\<close> on a plain object, as it shows in the own
  properties of \<open>ob\<close>. For the key \<^verbatim>\<open>__proto__\<close> on an object without an own
  property of that name the assignment runs the setter inherited from
  \<^verbatim>\<open>Object.prototype\<close>: no own property is written.
\<close>

definition assignProperty :: "string \<Rightarrow> 'v \<Rightarrow> (string \<times> 'v) list \<Rightarrow> (string \<times> 'v) list" where
  "assignProperty key v ob =
     (if key = ''__proto__'' \<and> map_of ob key = None then ob else AList.update key v ob)"

text \<open>
  \<^verbatim>\<open>toMinimalOutput\<close>: one assignment \<^verbatim>\<open>minimal[metric.name] = ...\<close> per report, on
  an object that starts as \<^verbatim>\<open>{}\<close>. The result is given by its own properties, which
  are what \<^verbatim>\<open>Object.keys\<close> and \<^verbatim>\<open>JSON.stringify\<close> show.
\<close>

definition toMinimalOutput :: "sanitizer \<Rightarrow> (string \<times> minimalEntry) list" where
  "toMinimalOutput this =
     fold (\<lambda>(k, metric) minimal.
             assignProperty (name metric)
               \<lparr>msummary = summary metric, lastValue = lastPointValue (points metric),
                munit = unit metric\<rparr> minimal)
          (metrics this) []"

section \<open>Merge utility\<close>

text \<open>
  The values a configuration tree is built from. \<open>Obj\<close> is a plain object, given by its
  own properties, \<open>Arr\<close> an array. \<open>Inherited n\<close> is what a read of the name \<open>n\<close> finds
  on \<^verbatim>\<open>Object.prototype\<close>: a function, or for \<^verbatim>\<open>__proto__\<close> the prototype object
  itself. It is never part of a tree that comes from JSON.
\<close>

datatype jv = Undefined | Null | Bool bool | Num real | Str string
  | Arr "jv list" | Obj "(string \<times> jv) list" | Inherited string

type_synonym obj = "(string \<times> jv) list"

text \<open>
  \<^verbatim>\<open>isObject\<close>:
  \<^verbatim>\<open>value !== null && typeof value === "object" && !Array.isArray(value)\<close>.
\<close>

fun isObject :: "jv \<Rightarrow> bool" where
  "isObject (Obj fs) = True"
| "isObject (Inherited n) = (n = ''__proto__'')"
| "isObject v = False"

text \<open>
  \<^verbatim>\<open>deepMerge(target, source)\<close>. \<open>mergeKeys\<close> is its loop over
  \<^verbatim>\<open>Object.keys(source)\<close>, with \<open>result\<close> starting as the copy \<^verbatim>\<open>{ ...target }\<close>;
  both are given by their own properties.

  For the key \<^verbatim>\<open>__proto__\<close>, when \<open>result\<close> has no own property of that name, either
  assignment to \<^verbatim>\<open>result[key]\<close> runs the inherited setter and \<open>result\<close> keeps its own
  properties. In every other case the test
  \<^verbatim>\<open>key in target && isObject(target[key]) && isObject(value)\<close> holds exactly when
  \<open>target\<close> has an own plain object at \<open>key\<close> and \<open>v\<close> is one: under any other name
  the prototype only holds functions, and \<open>result\<close> has an own \<^verbatim>\<open>__proto__\<close> only
  if \<open>target\<close> has. That is the first case of the pattern match; every other
  combination assigns \<open>v\<close>.
\<close>

function deepMerge :: "obj \<Rightarrow> obj \<Rightarrow> obj"
  and mergeKeys :: "obj \<Rightarrow> obj \<Rightarrow> obj \<Rightarrow> obj" where
  "deepMerge target source = mergeKeys target source target"
| "mergeKeys target [] result = result"
| "mergeKeys target ((key, v) # keys) result =
     mergeKeys target keys
       (if key = ''__proto__'' \<and> map_of result key = None then result
        else AList.update key
               (case (map_of target key, v) of
                  (Some (Obj t), Obj s) \<Rightarrow> Obj (deepMerge t s)
                | _ \<Rightarrow> v)
               result)"
  by pat_completeness auto
termination
  apply (relation "measure (\<lambda>x. case x of
            Inl (t, s) \<Rightarrow> 2 * size_list (size_prod (\<lambda>_. 0) size) s + 1
          | Inr (t, s, r) \<Rightarrow> 2 * size_list (size_prod (\<lambda>_. 0) size) s)")
    apply simp_all
  done

declare deepMerge.simps [simp del]

section \<open>Adapter pipeline\<close>

text \<open>JavaScript truthiness, as used by \<^verbatim>\<open>?:\<close> and \<^verbatim>\<open>||\<close>.\<close>

fun truthy :: "jv \<Rightarrow> bool" where
  "truthy Undefined = False"
| "truthy Null = False"
| "truthy (Bool b) = b"
| "truthy (Num x) = (x \<noteq> 0)"
| "truthy (Str s) = (s \<noteq> [])"
| "truthy (Arr vs) = True"
| "truthy (Obj fs) = True"
| "truthy (Inherited n) = True"

text \<open>
  The property read \<^verbatim>\<open>ob[key]\<close> on a plain object whose prototype is
  \<^verbatim>\<open>Object.prototype\<close>: the own property, else the inherited member of that name,
  else \<^verbatim>\<open>undefined\<close>.
\<close>

definition getProp :: "obj \<Rightarrow> string \<Rightarrow> jv" where
  "getProp ob key =
     (case map_of ob key of
        Some v \<Rightarrow> v
      | None \<Rightarrow> if key \<in> set objectPrototypeKeys then Inherited key else Undefined)"


text \<open>How a promise settles; a rejection carries its error message.\<close>

datatype 'o settled = Fulfilled 'o | Rejected string

record 'o promise =
  startedAt :: nat
  settlesAt :: nat
  outcome :: "'o settled"

text \<open>
  \<^verbatim>\<open>Adapter<I, O>\<close>, given by its \<^verbatim>\<open>run\<close> method: for an input, the number of turns
  the returned promise stays pending and the way it settles. An adapter fails by
  rejecting; a synchronous throw out of \<^verbatim>\<open>run\<close> is not represented.
\<close>

type_synonym 'o adapter = "jv \<Rightarrow> nat \<times> 'o settled"

text \<open>\<^verbatim>\<open>PipelineOptions\<close>; all three fields are optional.\<close>

record pipelineOptions =
  runInParallel :: "bool option"
  timeout :: "real option"
  saveRaw :: "bool option"

text \<open>
  An \<^verbatim>\<open>AdapterPipeline\<close> instance: its two \<^verbatim>\<open>readonly\<close> fields hold references
  to the adapter registry and to the config registry, two objects in the store.
\<close>

record pipeline =
  adapters :: nat
  config :: nat

record 'o store =
  adapterObjects :: "nat \<Rightarrow> (string \<times> 'o adapter) list"
  configObjects :: "nat \<Rightarrow> obj"
  nextRef :: nat

text \<open>Evaluating an object literal allocates a new object.\<close>

definition newAdapters :: "(string \<times> 'o adapter) list \<Rightarrow> 'o store \<Rightarrow> nat \<times> 'o store" where
  "newAdapters ob s =
     (nextRef s,
      s\<lparr>adapterObjects := (adapterObjects s)(nextRef s := ob), nextRef := nextRef s + 1\<rparr>)"

definition newConfig :: "obj \<Rightarrow> 'o store \<Rightarrow> nat \<times> 'o store" where
  "newConfig ob s =
     (nextRef s,
      s\<lparr>configObjects := (configObjects s)(nextRef s := ob), nextRef := nextRef s + 1\<rparr>)"

definition emptyStore :: "'o store" where
  "emptyStore = \<lparr>adapterObjects = (\<lambda>r. []), configObjects = (\<lambda>r. []), nextRef = 0\<rparr>"

text \<open>\<^verbatim>\<open>new AdapterPipeline()\<close> with both default arguments \<^verbatim>\<open>{}\<close>.\<close>

definition newPipeline :: "'o store \<Rightarrow> pipeline \<times> 'o store" where
  "newPipeline s =
     (let (a, s1) = newAdapters [] s;
          (c, s2) = newConfig [] s1
      in (\<lparr>adapters = a, config = c\<rparr>, s2))"

text \<open>
  \<^verbatim>\<open>addAdapter(key, adapter, config?)\<close>: two object literals that spread the
  registries of \<^verbatim>\<open>this\<close> and then set \<^verbatim>\<open>[key]\<close>, passed to the constructor. The
  config entry is \<^verbatim>\<open>config || undefined\<close>. An absent \<open>cfg\<close> is \<^const>\<open>Undefined\<close>.
\<close>

definition addAdapter ::
  "string \<Rightarrow> 'o adapter \<Rightarrow> jv \<Rightarrow> pipeline \<Rightarrow> 'o store \<Rightarrow> pipeline \<times> 'o store" where
  "addAdapter key adapter cfg this s =
     (let (a, s1) = newAdapters (AList.update key adapter (adapterObjects s (adapters this))) s;
          (c, s2) = newConfig (AList.update key (if truthy cfg then cfg else Undefined)
                                 (configObjects s1 (config this))) s1
      in (\<lparr>adapters = a, config = c\<rparr>, s2))"

text \<open>\<^verbatim>\<open>setConfig\<close>: \<^verbatim>\<open>this.config[key] = value; return this\<close>, a write in place.\<close>

definition setConfig :: "string \<Rightarrow> jv \<Rightarrow> pipeline \<Rightarrow> 'o store \<Rightarrow> pipeline \<times> 'o store" where
  "setConfig key v this s =
     (this, s\<lparr>configObjects := (configObjects s)
                 (config this := assignProperty key v (configObjects s (config this)))\<rparr>)"

definition getConfig :: "string \<Rightarrow> pipeline \<Rightarrow> 'o store \<Rightarrow> jv" where
  "getConfig key this s = getProp (configObjects s (config this)) key"

text \<open>\<^verbatim>\<open>const finalConfig = deepMerge(this.config, config || {})\<close>.\<close>

definition finalConfig :: "obj \<Rightarrow> obj option \<Rightarrow> obj" where
  "finalConfig cfg override = deepMerge cfg (case override of Some c \<Rightarrow> c | None \<Rightarrow> [])"

text \<open>
  The callback of the \<^verbatim>\<open>map\<close> that builds \<^verbatim>\<open>promises\<close>:
  \<^verbatim>\<open>finalConfig[key] ? adapter.run(finalConfig[key]) : null\<close>, evaluated at turn \<open>now\<close>.
\<close>

definition startAdapter :: "nat \<Rightarrow> obj \<Rightarrow> string \<times> 'o adapter \<Rightarrow> 'o promise option" where
  "startAdapter now fc entry =
     (case entry of (key, adapter) \<Rightarrow>
        if truthy (getProp fc key)
        then (case adapter (getProp fc key) of
                (turns, out) \<Rightarrow>
                  Some \<lparr>startedAt = now, settlesAt = now + turns, outcome = out\<rparr>)
        else None)"

text \<open>
  The sequential branch, \<^verbatim>\<open>for (const p of promises) results.push(await p)\<close>:
  awaiting \<^verbatim>\<open>null\<close> gives \<^verbatim>\<open>null\<close>, awaiting a promise suspends until it has
  settled, and a rejection leaves the loop.
\<close>

fun awaitEach ::
  "nat \<Rightarrow> 'o promise option list \<Rightarrow> 'o option list \<Rightarrow> nat \<times> (string + 'o option list)" where
  "awaitEach now [] results = (now, Inr results)"
| "awaitEach now (None # ps) results = awaitEach now ps (results @ [None])"
| "awaitEach now (Some p # ps) results =
     (case outcome p of
        Fulfilled v \<Rightarrow> awaitEach (max now (settlesAt p)) ps (results @ [Some v])
      | Rejected e \<Rightarrow> (max now (settlesAt p), Inl e))"

text \<open>
  What \<^verbatim>\<open>Promise.all\<close> settles to: the values in order when every promise fulfils,
  otherwise the rejection that settles first (the earlier element when two settle in
  the same turn), with its turn.
\<close>

fun joinAll :: "'o promise option list \<Rightarrow> (nat \<times> string) + 'o option list" where
  "joinAll [] = Inr []"
| "joinAll (None # ps) =
     (case joinAll ps of Inl r \<Rightarrow> Inl r | Inr vs \<Rightarrow> Inr (None # vs))"
| "joinAll (Some p # ps) =
     (case outcome p of
        Fulfilled v \<Rightarrow> (case joinAll ps of Inl r \<Rightarrow> Inl r | Inr vs \<Rightarrow> Inr (Some v # vs))
      | Rejected e \<Rightarrow>
          (case joinAll ps of
             Inl (t, e') \<Rightarrow> if settlesAt p \<le> t then Inl (settlesAt p, e) else Inl (t, e')
           | Inr vs \<Rightarrow> Inl (settlesAt p, e)))"

text \<open>The parallel branch, \<^verbatim>\<open>await Promise.all(promises)\<close>.\<close>

definition promiseAll ::
  "nat \<Rightarrow> 'o promise option list \<Rightarrow> nat \<times> (string + 'o option list)" where
  "promiseAll now ps =
     (case joinAll ps of
        Inl (t, e) \<Rightarrow> (max now t, Inl e)
      | Inr vs \<Rightarrow>
          (fold (\<lambda>p t. case p of None \<Rightarrow> t | Some q \<Rightarrow> max t (settlesAt q)) ps now, Inr vs))"

text \<open>\<^verbatim>\<open>Object.fromEntries\<close>.\<close>

definition fromEntries :: "(string \<times> 'v) list \<Rightarrow> (string \<times> 'v) list" where
  "fromEntries entries = fold (\<lambda>(k, v) ob. AList.update k v ob) entries []"

text \<open>
  What a call of \<^verbatim>\<open>run\<close> does: the calls of \<^verbatim>\<open>adapter.run\<close> it makes, in order,
  each with the promise it returned; the turn at which the promise of \<^verbatim>\<open>run\<close>
  settles; and what it settles to, a rejection or the result map, in which
  \<^const>\<open>None\<close> is \<^verbatim>\<open>null\<close>.
\<close>

record 'o execution =
  calls :: "(string \<times> 'o promise) list"
  finishedAt :: nat
  returned :: "string + (string \<times> 'o option) list"

text \<open>
  The body of \<^verbatim>\<open>run(config?, options = {})\<close> over the two registries. The clock
  starts at \<open>0\<close> when \<^verbatim>\<open>run\<close> is called. The whole \<^verbatim>\<open>map\<close> runs before the first
  \<^verbatim>\<open>await\<close>, so every callback is evaluated at turn \<open>0\<close>.
\<close>

definition runPipeline ::
  "(string \<times> 'o adapter) list \<Rightarrow> obj \<Rightarrow> obj option \<Rightarrow> pipelineOptions \<Rightarrow> 'o execution" where
  "runPipeline entries cfg override options =
     (let fc = finalConfig cfg override;
          promises = map (startAdapter 0 fc) entries;
          (t, results) = (if runInParallel options = Some True
                          then promiseAll 0 promises
                          else awaitEach 0 promises [])
      in \<lparr>calls = concat (map (\<lambda>(entry, p). case p of None \<Rightarrow> [] | Some q \<Rightarrow> [(fst entry, q)])
                          (zip entries promises)),
          finishedAt = t,
          returned = (case results of
                        Inl e \<Rightarrow> Inl e
                      | Inr rs \<Rightarrow> Inr (fromEntries (zip (map fst entries) rs)))\<rparr>)"


section \<open>Notions used in the statements\<close>

text \<open>The points of the events for the metric name \<open>n\<close>, in arrival order.\<close>

fun pointsFor :: "string \<Rightarrow> k6Output list \<Rightarrow> reportPoint list" where
  "pointsFor n [] = []"
| "pointsFor n (Point m d # items) =
     (if m = n
      then \<lparr>time = data_time d, timestamp = NewDate (data_time d),
            value' = data_value d, tags = data_tags d\<rparr> # pointsFor n items
      else pointsFor n items)"
| "pointsFor n (Metric m d # items) = pointsFor n items"

text \<open>The data of the definition events, in arrival order.\<close>

fun definitionsOf :: "k6Output list \<Rightarrow> metricData list" where
  "definitionsOf [] = []"
| "definitionsOf (Metric m d # items) = d # definitionsOf items"
| "definitionsOf (Point m d # items) = definitionsOf items"

text \<open>The report a definition event registers.\<close>

definition skeleton :: "metricData \<Rightarrow> metricReport" where
  "skeleton d = \<lparr>name = data_name d, type = typeName (data_type d),
                 description = getMetricDescription (data_name d),
                 unit = getUnitFromContains (data_contains d), points = [], summary = None\<rparr>"

text \<open>
  Invariants of the map while \<^const>\<open>processData\<close> runs: keys are distinct and every
  report is stored under its own name; before the summary pass no report has a summary.
\<close>

definition wfMetrics :: "metrics \<Rightarrow> bool" where
  "wfMetrics ms \<longleftrightarrow> distinct (map fst ms) \<and> (\<forall>p \<in> set ms. name (snd p) = fst p)"

definition noSummary :: "metrics \<Rightarrow> bool" where
  "noSummary ms \<longleftrightarrow> (\<forall>p \<in> set ms. summary (snd p) = None)"

text \<open>The entry \<^const>\<open>toMinimalOutput\<close> writes for a report.\<close>

definition minimalOf :: "metricReport \<Rightarrow> minimalEntry" where
  "minimalOf metric =
     \<lparr>msummary = summary metric, lastValue = lastPointValue (points metric),
      munit = unit metric\<rparr>"

text \<open>
  The values that stand for JavaScript values: no object in the tree holds a key twice.
\<close>

fun wellFormed :: "jv \<Rightarrow> bool" where
  "wellFormed (Obj fs) = (distinct (map fst fs) \<and> (\<forall>p \<in> set fs. wellFormed (snd p)))"
| "wellFormed (Arr vs) = (\<forall>v \<in> set vs. wellFormed v)"
| "wellFormed v = True"

text \<open>The value \<^const>\<open>mergeKeys\<close> assigns to \<open>key\<close> when the source holds \<open>v\<close> there.\<close>

definition mergedValue :: "obj \<Rightarrow> string \<Rightarrow> jv \<Rightarrow> jv" where
  "mergedValue target key v =
     (case (map_of target key, v) of
        (Some (Obj t), Obj s) \<Rightarrow> Obj (deepMerge t s)
      | _ \<Rightarrow> v)"

text \<open>
  An element of \<^verbatim>\<open>promises\<close> and the result it contributes: \<^verbatim>\<open>null\<close> for
  \<^verbatim>\<open>null\<close>, the value for a promise that fulfils.
\<close>

definition settledAs :: "'o promise option \<Rightarrow> 'o option \<Rightarrow> bool" where
  "settledAs p v =
     (case p of
        None \<Rightarrow> v = None
      | Some q \<Rightarrow> (case outcome q of Fulfilled x \<Rightarrow> v = Some x | Rejected e \<Rightarrow> False))"

text \<open>An element of \<^verbatim>\<open>promises\<close> that does not reject.\<close>

definition fulfils :: "'o promise option \<Rightarrow> bool" where
  "fulfils p =
     (case p of
        None \<Rightarrow> True
      | Some q \<Rightarrow> (case outcome q of Fulfilled x \<Rightarrow> True | Rejected e \<Rightarrow> False))"

subsection \<open>Sample inputs\<close>

text \<open>
  An event stream with a point for the undefined metric \<open>x\<close>, two definitions of
  \<open>a\<close>, three points for \<open>a\<close>, and a definition of \<open>vus\<close> without points.
\<close>

definition sampleEvents :: "k6Output list" where
  "sampleEvents =
    [Point ''x'' \<lparr>data_time = ''t0'', data_value = Finite 5, data_tags = [(''k'', ''v'')]\<rparr>,
     Metric ''a'' \<lparr>data_name = ''a'', data_type = Trend, data_contains = Time\<rparr>,
     Point ''a'' \<lparr>data_time = ''t1'', data_value = Finite 1, data_tags = []\<rparr>,
     Metric ''a'' \<lparr>data_name = ''a'', data_type = Counter, data_contains = Data\<rparr>,
     Metric ''vus'' \<lparr>data_name = ''vus'', data_type = Gauge, data_contains = Default\<rparr>,
     Point ''a'' \<lparr>data_time = ''t2'', data_value = Finite 2, data_tags = []\<rparr>,
     Point ''a'' \<lparr>data_time = ''t3'', data_value = Finite 3, data_tags = []\<rparr>]"

text \<open>The double nearest to one tenth, and three points that carry it.\<close>

definition tenth :: real where
  "tenth = 3602879701896397 / 36028797018963968"

definition tenthEvents :: "k6Output list" where
  "tenthEvents =
    [Point ''m'' \<lparr>data_time = ''t1'', data_value = Finite tenth, data_tags = []\<rparr>,
     Point ''m'' \<lparr>data_time = ''t2'', data_value = Finite tenth, data_tags = []\<rparr>,
     Point ''m'' \<lparr>data_time = ''t3'', data_value = Finite tenth, data_tags = []\<rparr>]"

text \<open>Two definitions without points, the second under the name \<^verbatim>\<open>__proto__\<close>.\<close>

definition protoEvents :: "k6Output list" where
  "protoEvents =
    [Metric ''vus'' \<lparr>data_name = ''vus'', data_type = Gauge, data_contains = Default\<rparr>,
     Metric ''__proto__''
       \<lparr>data_name = ''__proto__'', data_type = Gauge, data_contains = Default\<rparr>]"

text \<open>Two adapters: \<open>slow\<close> settles after two turns, \<open>quick\<close> after one.\<close>

definition slow :: "nat adapter" where
  "slow input = (2, Fulfilled 10)"

definition quick :: "nat adapter" where
  "quick input = (1, Fulfilled 20)"

definition failing :: "nat adapter" where
  "failing input = (2, Rejected ''boom'')"

text \<open>
  A store holding one pipeline: four adapters, and a config registry whose entries
  for \<open>b\<close>, \<open>c\<close> and \<open>d\<close> are falsy.
\<close>

definition sampleStore :: "nat store" where
  "sampleStore =
     \<lparr>adapterObjects = (\<lambda>r. [])(0 := [(''a'', slow), (''b'', quick), (''c'', quick), (''d'', quick)]),
      configObjects = (\<lambda>r. [])(1 := [(''a'', Obj [(''vus'', Num 5)]), (''b'', Num 0),
                                      (''c'', Str []), (''d'', Null)]),
      nextRef = 2\<rparr>"

definition samplePipeline :: pipeline where
  "samplePipeline = \<lparr>adapters = 0, config = 1\<rparr>"

definition noOptions :: pipelineOptions where
  "noOptions = \<lparr>runInParallel = None, timeout = None, saveRaw = None\<rparr>"




section \<open>Numbers: properties\<close>

lemma log2n_small: "n < 2 \<Longrightarrow> log2n n = 0"
  by (simp add: log2n.simps)

lemma log2n_step: "2 \<le> n \<Longrightarrow> log2n n = Suc (log2n (n div 2))"
  by (subst log2n.simps) simp

lemma log2n_bounds: "0 < n \<Longrightarrow> 2 ^ log2n n \<le> n \<and> n < 2 ^ Suc (log2n n)"
proof (induction n rule: log2n.induct)
  case (1 n)
  show ?case
  proof (cases "n < 2")
    case True
    with 1 show ?thesis by (simp add: log2n_small)
  next
    case False
    then have pos: "0 < n div 2" by simp
    from 1 False pos
    have IH: "2 ^ log2n (n div 2) \<le> n div 2 \<and> n div 2 < 2 ^ Suc (log2n (n div 2))"
      by simp
    have eq: "log2n n = Suc (log2n (n div 2))" using False by (simp add: log2n_step)
    from IH have "2 * 2 ^ log2n (n div 2) \<le> n" by linarith
    moreover from IH have "n < 2 * 2 ^ Suc (log2n (n div 2))" by linarith
    ultimately show ?thesis unfolding eq by simp
  qed
qed

text \<open>The exponent that \<^const>\<open>roundDouble\<close> uses is the binary exponent.\<close>

lemma ilog2_bounds:
  assumes "0 < a"
  shows "pow2 (ilog2 a) \<le> a \<and> a < pow2 (ilog2 a + 1)"
proof (cases "1 \<le> a")
  case True
  define m where "m = nat \<lfloor>a\<rfloor>"
  have m: "0 < m" using True by (simp add: m_def)
  have lo: "real m \<le> a" and hi: "a < real m + 1" using True unfolding m_def by linarith+
  from log2n_bounds [OF m] have b1: "2 ^ log2n m \<le> m" and b2: "m + 1 \<le> 2 ^ Suc (log2n m)"
    by simp_all
  from b1 have "real (2 ^ log2n m) \<le> real m" by (rule of_nat_mono)
  then have "(2::real) ^ log2n m \<le> real m" by simp
  with lo have A: "(2::real) ^ log2n m \<le> a" by linarith
  from b2 have "real (m + 1) \<le> real (2 ^ Suc (log2n m))" by (rule of_nat_mono)
  then have "real m + 1 \<le> 2 * (2::real) ^ log2n m" by simp
  with hi have B: "a < 2 * (2::real) ^ log2n m" by linarith
  have e: "ilog2 a = int (log2n m)" using True by (simp add: ilog2_def m_def)
  have p1: "pow2 (int (log2n m)) = 2 ^ log2n m" by (simp add: pow2_def)
  have p2: "pow2 (int (log2n m) + 1) = 2 * 2 ^ log2n m"
    by (simp add: pow2_def nat_add_distrib)
  show ?thesis unfolding e p1 p2 using A B by simp
next
  case False
  define b where "b = 1 / a"
  define m where "m = nat (- \<lfloor>- b\<rfloor>)"
  define k where "k = log2n (m - 1)"
  from False assms have b1: "1 < b" by (simp add: b_def)
  have ceil: "b \<le> real m" and ceil': "real m - 1 < b" using b1 unfolding m_def by linarith+
  from b1 ceil have m2: "2 \<le> m" by linarith
  then have "0 < m - 1" by simp
  from log2n_bounds [OF this] have c1: "2 ^ k \<le> m - 1" and c2: "m - 1 < 2 ^ Suc k"
    unfolding k_def by simp_all
  from c1 have "real (2 ^ k) \<le> real (m - 1)" by (rule of_nat_mono)
  with m2 have "(2::real) ^ k \<le> real m - 1" by (simp add: of_nat_diff)
  with ceil' have A: "(2::real) ^ k < b" by linarith
  from c2 have "m \<le> 2 ^ Suc k" by simp
  then have "real m \<le> real (2 ^ Suc k)" by (rule of_nat_mono)
  then have "real m \<le> 2 * (2::real) ^ k" by simp
  with ceil have B: "b \<le> 2 * (2::real) ^ k" by linarith
  have e: "ilog2 a = - int (Suc k)" using False by (simp add: ilog2_def k_def m_def b_def)
  have n: "nat (int k + 1) = Suc k" by simp
  have p1: "pow2 (- int (Suc k)) = 1 / (2 * 2 ^ k)" by (simp add: pow2_def n)
  have p2: "pow2 (- int (Suc k) + 1) = 1 / 2 ^ k" by (simp add: pow2_def)
  have pos: "0 < (2::real) ^ k" by simp
  from B assms pos have lo: "1 / (2 * 2 ^ k) \<le> a"
    unfolding b_def by (simp add: field_simps)
  from A assms pos have hi: "a < 1 / 2 ^ k"
    unfolding b_def by (simp add: field_simps)
  show ?thesis unfolding e p1 p2 using lo hi by simp
qed

lemma roundHalfEven_nearest: "\<bar>q - of_int (roundHalfEven q)\<bar> \<le> 1 / 2"
  unfolding roundHalfEven_def Let_def by (simp; linarith)

text \<open>Rules that evaluate the arithmetic on numerals.\<close>

lemmas double_eval = roundDouble_def ilog2_def pow2_def roundHalfEven_def log2n_small log2n_step

text \<open>On numbers other than \<^verbatim>\<open>NaN\<close> the comparison is a linear order.\<close>

lemma not_dless_trans:
  "a \<noteq> NaN \<Longrightarrow> b \<noteq> NaN \<Longrightarrow> c \<noteq> NaN \<Longrightarrow> \<not> dless a b \<Longrightarrow> \<not> dless b c \<Longrightarrow> \<not> dless a c"
  by (cases a; cases b; cases c) auto

lemma not_dless_PosInf: "v \<noteq> NaN \<Longrightarrow> \<not> dless v PosInf \<Longrightarrow> v = PosInf"
  by (cases v) auto

lemma not_dless_NegInf: "v \<noteq> NaN \<Longrightarrow> \<not> dless NegInf v \<Longrightarrow> v = NegInf"
  by (cases v) auto

lemma lower_props:
  assumes "acc \<noteq> NaN" and "v \<noteq> NaN"
  shows "lower acc v \<noteq> NaN" and "lower acc v = acc \<or> lower acc v = v"
    and "\<not> dless acc (lower acc v)" and "\<not> dless v (lower acc v)"
  using assms by (cases acc; cases v; auto simp add: lower_def)+

lemma higher_props:
  assumes "acc \<noteq> NaN" and "v \<noteq> NaN"
  shows "higher acc v \<noteq> NaN" and "higher acc v = acc \<or> higher acc v = v"
    and "\<not> dless (higher acc v) acc" and "\<not> dless (higher acc v) v"
  using assms by (cases acc; cases v; auto simp add: higher_def)+

lemma foldl_lower:
  assumes "acc \<noteq> NaN" and "NaN \<notin> set vs"
  shows "foldl lower acc vs \<noteq> NaN
       \<and> (foldl lower acc vs = acc \<or> foldl lower acc vs \<in> set vs)
       \<and> \<not> dless acc (foldl lower acc vs)
       \<and> (\<forall>v \<in> set vs. \<not> dless v (foldl lower acc vs))"
  using assms
proof (induction vs arbitrary: acc)
  case Nil
  then show ?case by (cases acc) auto
next
  case (Cons v vs)
  let ?a = "lower acc v"
  let ?m = "foldl lower ?a vs"
  from Cons.prems have v: "v \<noteq> NaN" and rest: "NaN \<notin> set vs" by auto
  note lp = lower_props [OF Cons.prems(1) v]
  from Cons.IH [OF lp(1) rest]
  have m: "?m \<noteq> NaN" and mem: "?m = ?a \<or> ?m \<in> set vs"
    and le: "\<not> dless ?a ?m" and all: "\<forall>w \<in> set vs. \<not> dless w ?m"
    by blast+
  have "\<not> dless acc ?m"
    using not_dless_trans [OF Cons.prems(1) lp(1) m lp(3) le] .
  moreover have "\<not> dless v ?m"
    using not_dless_trans [OF v lp(1) m lp(4) le] .
  moreover have "?m = acc \<or> ?m \<in> set (v # vs)"
    using mem lp(2) by auto
  ultimately show ?case using m all by simp
qed

lemma foldl_higher:
  assumes "acc \<noteq> NaN" and "NaN \<notin> set vs"
  shows "foldl higher acc vs \<noteq> NaN
       \<and> (foldl higher acc vs = acc \<or> foldl higher acc vs \<in> set vs)
       \<and> \<not> dless (foldl higher acc vs) acc
       \<and> (\<forall>v \<in> set vs. \<not> dless (foldl higher acc vs) v)"
  using assms
proof (induction vs arbitrary: acc)
  case Nil
  then show ?case by (cases acc) auto
next
  case (Cons v vs)
  let ?a = "higher acc v"
  let ?m = "foldl higher ?a vs"
  from Cons.prems have v: "v \<noteq> NaN" and rest: "NaN \<notin> set vs" by auto
  note hp = higher_props [OF Cons.prems(1) v]
  from Cons.IH [OF hp(1) rest]
  have m: "?m \<noteq> NaN" and mem: "?m = ?a \<or> ?m \<in> set vs"
    and le: "\<not> dless ?m ?a" and all: "\<forall>w \<in> set vs. \<not> dless ?m w"
    by blast+
  have "\<not> dless ?m acc"
    using not_dless_trans [OF m hp(1) Cons.prems(1) le hp(3)] .
  moreover have "\<not> dless ?m v"
    using not_dless_trans [OF m hp(1) v le hp(4)] .
  moreover have "?m = acc \<or> ?m \<in> set (v # vs)"
    using mem hp(2) by auto
  ultimately show ?case using m all by simp
qed

lemma mathMin_least:
  assumes "vs \<noteq> []" and "NaN \<notin> set vs"
  shows "mathMin vs \<in> set vs \<and> (\<forall>v \<in> set vs. \<not> dless v (mathMin vs))"
proof -
  from foldl_lower [of PosInf vs] assms(2)
  have mem: "mathMin vs = PosInf \<or> mathMin vs \<in> set vs"
    and all: "\<forall>v \<in> set vs. \<not> dless v (mathMin vs)"
    by (simp_all add: mathMin_def)
  have "mathMin vs \<in> set vs"
  proof (cases "mathMin vs = PosInf")
    case True
    from assms(1) obtain v where v: "v \<in> set vs" by (cases vs) auto
    with assms(2) have "v \<noteq> NaN" by auto
    moreover from all v True have "\<not> dless v PosInf" by auto
    ultimately have "v = PosInf" by (rule not_dless_PosInf)
    with v True show ?thesis by simp
  next
    case False
    with mem show ?thesis by simp
  qed
  with all show ?thesis by simp
qed

lemma mathMax_greatest:
  assumes "vs \<noteq> []" and "NaN \<notin> set vs"
  shows "mathMax vs \<in> set vs \<and> (\<forall>v \<in> set vs. \<not> dless (mathMax vs) v)"
proof -
  from foldl_higher [of NegInf vs] assms(2)
  have mem: "mathMax vs = NegInf \<or> mathMax vs \<in> set vs"
    and all: "\<forall>v \<in> set vs. \<not> dless (mathMax vs) v"
    by (simp_all add: mathMax_def)
  have "mathMax vs \<in> set vs"
  proof (cases "mathMax vs = NegInf")
    case True
    from assms(1) obtain v where v: "v \<in> set vs" by (cases vs) auto
    with assms(2) have "v \<noteq> NaN" by auto
    moreover from all v True have "\<not> dless NegInf v" by auto
    ultimately have "v = NegInf" by (rule not_dless_NegInf)
    with v True show ?thesis by simp
  next
    case False
    with mem show ?thesis by simp
  qed
  with all show ?thesis by simp
qed

section \<open>Sanitizer: properties\<close>

subsection \<open>Lookups after each operation\<close>

lemma map_of_addMetricDefinition:
  "map_of (addMetricDefinition d ms) n =
     (if n = data_name d \<and> map_of ms n = None
      then Some \<lparr>name = data_name d, type = typeName (data_type d),
              description = getMetricDescription (data_name d),
              unit = getUnitFromContains (data_contains d), points = [], summary = None\<rparr>
      else map_of ms n)"
  by (auto simp add: addMetricDefinition_def Let_def update_conv')

lemma map_of_addDataPoint:
  "map_of (addDataPoint m d ms) n =
     (if n = m
      then Some ((case map_of ms m of None \<Rightarrow> implicitMetric m | Some r \<Rightarrow> r)
                  \<lparr>points := points (case map_of ms m of None \<Rightarrow> implicitMetric m | Some r \<Rightarrow> r)
                              @ [toReportPoint d]\<rparr>)
      else map_of ms n)"
  by (auto simp add: addDataPoint_def Let_def update_conv' map_of_map_entry split: option.splits)

lemma map_of_addMetricDefinition':
  "map_of (addMetricDefinition d ms) n =
     (if n = data_name d \<and> map_of ms n = None then Some (skeleton d) else map_of ms n)"
  by (auto simp add: map_of_addMetricDefinition skeleton_def)

lemma map_of_definitionPass:
  "map_of (definitionPass items ms) n =
     (case map_of ms n of
        Some r \<Rightarrow> Some r
      | None \<Rightarrow> map_option skeleton (find (\<lambda>d. data_name d = n) (definitionsOf items)))"
proof (induction items ms rule: definitionPass.induct)
  case (2 m d items ms)
  then show ?case
    by (auto simp add: map_of_addMetricDefinition' split: option.splits)
qed (simp_all split: option.splits)

lemma map_of_pointPass:
  "map_of (pointPass items ms) n =
     (case map_of ms n of
        Some r \<Rightarrow> Some (r\<lparr>points := points r @ pointsFor n items\<rparr>)
      | None \<Rightarrow> if pointsFor n items = [] then None
                else Some ((implicitMetric n)\<lparr>points := pointsFor n items\<rparr>))"
proof (induction items ms rule: pointPass.induct)
  case (2 m d items ms)
  then show ?case
    by (auto simp add: map_of_addDataPoint implicitMetric_def toReportPoint_def
        split: option.splits)
qed (simp_all split: option.splits)

lemma map_of_calculateSummaries:
  "map_of (calculateSummaries ms) n = map_option summarize (map_of ms n)"
  unfolding calculateSummaries_def by (induction ms) auto

lemma pointsFor_mem:
  "Point n d \<in> set items \<Longrightarrow>
   \<lparr>time = data_time d, timestamp = NewDate (data_time d),
    value' = data_value d, tags = data_tags d\<rparr> \<in> set (pointsFor n items)"
  by (induction n items rule: pointsFor.induct) auto

lemma find_definitionsOf_None:
  "(\<forall>m d. Metric m d \<in> set items \<longrightarrow> data_name d \<noteq> n) \<Longrightarrow>
   find (\<lambda>d. data_name d = n) (definitionsOf items) = None"
  by (induction items rule: definitionsOf.induct) auto

lemma summarize_fields [simp]:
  "type (summarize r) = type r" "unit (summarize r) = unit r"
  "description (summarize r) = description r" "points (summarize r) = points r"
  by (simp_all add: summarize_def)

lemma find_first_definition:
  "\<forall>m' d'. Metric m' d' \<in> set pre \<longrightarrow> data_name d' \<noteq> data_name d \<Longrightarrow>
   find (\<lambda>x. data_name x = data_name d) (definitionsOf (pre @ Metric m d # post)) = Some d"
  by (induction pre rule: definitionsOf.induct) auto

subsection \<open>Invariants\<close>

lemma set_update_cases:
  "p \<in> set (AList.update k v al) \<Longrightarrow> p = (k, v) \<or> p \<in> set al"
  by (induction al) (auto split: if_splits)

lemma wfMetrics_update:
  "wfMetrics ms \<Longrightarrow> name r = k \<Longrightarrow> wfMetrics (AList.update k r ms)"
  unfolding wfMetrics_def
  by (auto simp add: distinct_update dest!: set_update_cases)

lemma set_map_entry_cases:
  "p \<in> set (AList.map_entry k f al) \<Longrightarrow> p \<in> set al \<or> (\<exists>v. (k, v) \<in> set al \<and> p = (k, f v))"
  by (induction al) (auto split: if_splits)

lemma wfMetrics_map_entry:
  "wfMetrics ms \<Longrightarrow> (\<And>r. name (f r) = name r) \<Longrightarrow> wfMetrics (AList.map_entry k f ms)"
  unfolding wfMetrics_def
  by (fastforce simp add: distinct_map_entry dest!: set_map_entry_cases)

lemma wfMetrics_addMetricDefinition:
  "wfMetrics ms \<Longrightarrow> wfMetrics (addMetricDefinition d ms)"
  by (simp add: addMetricDefinition_def Let_def wfMetrics_update)

lemma wfMetrics_addDataPoint:
  "wfMetrics ms \<Longrightarrow> wfMetrics (addDataPoint m d ms)"
  by (simp add: addDataPoint_def Let_def wfMetrics_update wfMetrics_map_entry implicitMetric_def)

lemma wfMetrics_definitionPass:
  "wfMetrics ms \<Longrightarrow> wfMetrics (definitionPass items ms)"
  by (induction items ms rule: definitionPass.induct) (simp_all add: wfMetrics_addMetricDefinition)

lemma wfMetrics_pointPass:
  "wfMetrics ms \<Longrightarrow> wfMetrics (pointPass items ms)"
  by (induction items ms rule: pointPass.induct) (simp_all add: wfMetrics_addDataPoint)

lemma name_summarize [simp]: "name (summarize r) = name r"
  by (simp add: summarize_def)

lemma wfMetrics_calculateSummaries:
  "wfMetrics ms \<Longrightarrow> wfMetrics (calculateSummaries ms)"
  unfolding wfMetrics_def calculateSummaries_def
  by (auto simp add: comp_def case_prod_unfold)

lemma wfMetrics_processData: "wfMetrics (processData items)"
  unfolding processData_def
  by (intro wfMetrics_calculateSummaries wfMetrics_pointPass wfMetrics_definitionPass)
     (simp add: wfMetrics_def)

lemma distinct_names:
  assumes "wfMetrics ms"
  shows "distinct (map name (map snd ms))"
proof -
  have eq: "map name (map snd ms) = map fst ms"
    using assms by (induction ms) (simp_all add: wfMetrics_def)
  show ?thesis
    unfolding eq using assms by (simp only: wfMetrics_def)
qed

lemma noSummary_update:
  "noSummary ms \<Longrightarrow> summary r = None \<Longrightarrow> noSummary (AList.update k r ms)"
  unfolding noSummary_def by (auto dest!: set_update_cases)

lemma noSummary_map_entry:
  "noSummary ms \<Longrightarrow> (\<And>r. summary (f r) = summary r) \<Longrightarrow> noSummary (AList.map_entry k f ms)"
  unfolding noSummary_def by (fastforce dest!: set_map_entry_cases)

lemma noSummary_addDataPoint:
  "noSummary ms \<Longrightarrow> noSummary (addDataPoint m d ms)"
  by (simp add: addDataPoint_def Let_def noSummary_update noSummary_map_entry implicitMetric_def)

lemma noSummary_addMetricDefinition:
  "noSummary ms \<Longrightarrow> noSummary (addMetricDefinition d ms)"
  by (simp add: addMetricDefinition_def Let_def noSummary_update)

lemma noSummary_definitionPass:
  "noSummary ms \<Longrightarrow> noSummary (definitionPass items ms)"
  by (induction items ms rule: definitionPass.induct) (simp_all add: noSummary_addMetricDefinition)

lemma noSummary_pointPass:
  "noSummary ms \<Longrightarrow> noSummary (pointPass items ms)"
  by (induction items ms rule: pointPass.induct) (simp_all add: noSummary_addDataPoint)

lemma summary_summarize:
  "summary r = None \<Longrightarrow>
   summary (summarize r)
     = (if points r = [] then None else Some (summaryOf (map value' (points r))))"
  by (simp add: summarize_def)

lemma processData_summary:
  assumes "p \<in> set (processData items)"
  shows "summary (snd p)
     = (if points (snd p) = [] then None else Some (summaryOf (map value' (points (snd p)))))"
proof -
  have "noSummary (pointPass items (definitionPass items []))"
    by (intro noSummary_pointPass noSummary_definitionPass) (simp add: noSummary_def)
  with assms show ?thesis
    unfolding processData_def calculateSummaries_def noSummary_def
    by (auto simp add: summary_summarize)
qed

lemma map_of_assignProperty:
  "n \<noteq> ''__proto__'' \<Longrightarrow>
   map_of (assignProperty k v ob) n = (if n = k then Some v else map_of ob n)"
  by (simp add: assignProperty_def update_conv')

lemma map_of_minimal_fold:
  "wfMetrics ms \<Longrightarrow> n \<noteq> ''__proto__'' \<Longrightarrow>
   map_of (fold (\<lambda>(k, metric) minimal.
             assignProperty (name metric)
               \<lparr>msummary = summary metric, lastValue = lastPointValue (points metric),
                munit = unit metric\<rparr> minimal) ms acc) n
   = (case map_of ms n of Some r \<Rightarrow> Some (minimalOf r) | None \<Rightarrow> map_of acc n)"
proof (induction ms arbitrary: acc)
  case Nil
  then show ?case by simp
next
  case (Cons p ms)
  from Cons.prems have wf: "wfMetrics ms" and nm: "name (snd p) = fst p"
    and fresh: "map_of ms (fst p) = None"
    by (auto simp add: wfMetrics_def map_of_eq_None_iff)
  show ?case
    using Cons.IH [OF wf Cons.prems(2)] nm fresh Cons.prems(2)
    by (cases p) (auto simp add: map_of_assignProperty minimalOf_def split: option.splits)
qed

subsection \<open>Description lookup\<close>

text \<open>Every description of the table is a non-empty string, hence truthy.\<close>

lemma descriptions_nonempty: "\<forall>p \<in> set descriptions. snd p \<noteq> []"
  by (simp add: descriptions_def)

text \<open>
  Claim C2, as the spec states it, fails: for a name outside the table the lookup does
  not return \<open>Metric: \<close> followed by the name. The template literal of the source starts
  with the Spanish word, whose second letter is an e with an acute accent.
\<close>

theorem getMetricDescription_not_english:
  "getMetricDescription ''foo'' \<noteq> Text (''Metric: '' @ ''foo'')"
  by (simp add: getMetricDescription_def descriptionsAt_def descriptions_def
      objectPrototypeKeys_def fallbackPrefix_def e_acute_def)

text \<open>
  Claim C2, amended. The lookup is a total function. A name found in the static table
  gets the description of the table. Any other name that is not a member inherited
  from \<^verbatim>\<open>Object.prototype\<close> gets the generic description: the bytes of
  \<open>M\<close>, e with acute accent, \<open>trica: \<close>, followed by the name.
\<close>

theorem getMetricDescription_table_or_fallback:
  "(\<forall>d. map_of descriptions n = Some d \<longrightarrow> getMetricDescription n = Text d)
   \<and> (map_of descriptions n = None \<and> n \<notin> set objectPrototypeKeys
        \<longrightarrow> getMetricDescription n = Text (''M'' @ [CHR 0xC3, CHR 0xA9] @ ''trica: '' @ n))"
proof (intro conjI allI impI)
  fix d
  assume own: "map_of descriptions n = Some d"
  then have "(n, d) \<in> set descriptions" by (rule map_of_SomeD)
  with descriptions_nonempty have "d \<noteq> []" by force
  with own show "getMetricDescription n = Text d"
    by (simp add: getMetricDescription_def descriptionsAt_def)
next
  assume "map_of descriptions n = None \<and> n \<notin> set objectPrototypeKeys"
  then show "getMetricDescription n = Text (''M'' @ [CHR 0xC3, CHR 0xA9] @ ''trica: '' @ n)"
    by (simp add: getMetricDescription_def descriptionsAt_def fallbackPrefix_def e_acute_def)
qed

theorem getMetricDescription_table_or_fallback_witness:
  "getMetricDescription ''data_sent'' = Text ''Data Sent - Bytes enviados''
   \<and> getMetricDescription ''foo'' = Text (''M'' @ [CHR 0xC3, CHR 0xA9] @ ''trica: foo'')"
proof -
  have table: "map_of descriptions ''data_sent'' = Some ''Data Sent - Bytes enviados''"
    by (simp add: descriptions_def)
  have other: "map_of descriptions ''foo'' = None \<and> ''foo'' \<notin> set objectPrototypeKeys"
    by (simp add: descriptions_def objectPrototypeKeys_def)
  from getMetricDescription_table_or_fallback [of "''data_sent''"] table
  have "getMetricDescription ''data_sent'' = Text ''Data Sent - Bytes enviados''"
    by blast
  moreover from getMetricDescription_table_or_fallback [of "''foo''"] other
  have "getMetricDescription ''foo'' = Text (''M'' @ [CHR 0xC3, CHR 0xA9] @ ''trica: '' @ ''foo'')"
    by blast
  ultimately show ?thesis by simp
qed

subsection \<open>Points of undefined metrics\<close>

text \<open>
  Claim C3. When the events contain a point for the name \<open>n\<close> and no definition event
  for \<open>n\<close>, the sanitizer has a report for \<open>n\<close> whose kind is \<open>unknown\<close>, which has no
  unit, whose description is the standard lookup, and whose points are the points of
  the events for \<open>n\<close>, in arrival order. The point of the event is among them with the
  time, the value and the tags of the event, and with the date built from its time.
\<close>

theorem undefined_point_creates_unknown_metric:
  assumes "Point n d \<in> set items"
    and "\<forall>m dd. Metric m dd \<in> set items \<longrightarrow> data_name dd \<noteq> n"
  shows "\<exists>r. getMetricByName (K6OutputSanitizer items) n = Some r
           \<and> name r = n \<and> type r = ''unknown'' \<and> unit r = None
           \<and> description r = getMetricDescription n
           \<and> points r = pointsFor n items
           \<and> \<lparr>time = data_time d, timestamp = NewDate (data_time d),
               value' = data_value d, tags = data_tags d\<rparr> \<in> set (points r)"
proof -
  have nodef: "map_of (definitionPass items []) n = None"
    using assms(2) by (simp add: map_of_definitionPass find_definitionsOf_None)
  have mem: "\<lparr>time = data_time d, timestamp = NewDate (data_time d),
               value' = data_value d, tags = data_tags d\<rparr> \<in> set (pointsFor n items)"
    using assms(1) by (rule pointsFor_mem)
  then have ne: "pointsFor n items \<noteq> []" by auto
  have "map_of (pointPass items (definitionPass items [])) n
          = Some ((implicitMetric n)\<lparr>points := pointsFor n items\<rparr>)"
    using nodef ne by (simp add: map_of_pointPass)
  then have "getMetricByName (K6OutputSanitizer items) n
          = Some (summarize ((implicitMetric n)\<lparr>points := pointsFor n items\<rparr>))"
    by (simp add: getMetricByName_def K6OutputSanitizer_def processData_def
        map_of_calculateSummaries)
  then show ?thesis using mem by (simp add: implicitMetric_def)
qed

theorem undefined_point_creates_unknown_metric_witness:
  "Point ''x'' \<lparr>data_time = ''t0'', data_value = Finite 5, data_tags = [(''k'', ''v'')]\<rparr>
     \<in> set sampleEvents
   \<and> (\<exists>r. getMetricByName (K6OutputSanitizer sampleEvents) ''x'' = Some r
          \<and> type r = ''unknown'' \<and> unit r = None
          \<and> points r = [\<lparr>time = ''t0'', timestamp = NewDate ''t0'', value' = Finite 5,
                          tags = [(''k'', ''v'')]\<rparr>])"
proof -
  let ?d = "\<lparr>data_time = ''t0'', data_value = Finite 5, data_tags = [(''k'', ''v'')]\<rparr>"
  have h1: "Point ''x'' ?d \<in> set sampleEvents"
    by (simp add: sampleEvents_def)
  have h2: "\<forall>m dd. Metric m dd \<in> set sampleEvents \<longrightarrow> data_name dd \<noteq> ''x''"
    by (auto simp add: sampleEvents_def)
  have pts: "pointsFor ''x'' sampleEvents
      = [\<lparr>time = ''t0'', timestamp = NewDate ''t0'', value' = Finite 5,
           tags = [(''k'', ''v'')]\<rparr>]"
    by (simp add: sampleEvents_def)
  from undefined_point_creates_unknown_metric [OF h1 h2] h1 pts show ?thesis by auto
qed

subsection \<open>One report per name\<close>

text \<open>
  Claim C4. The reports of the output have pairwise different names. When several
  definition events carry the same name, the first of them fixes the kind, the unit and
  the description of the report for that name, whatever follows it.
\<close>

theorem one_report_per_name_first_definition_wins:
  "distinct (map name (getSanitizedOutput (K6OutputSanitizer items)))
   \<and> (\<forall>pre m d post.
        items = pre @ Metric m d # post
        \<and> (\<forall>m' d'. Metric m' d' \<in> set pre \<longrightarrow> data_name d' \<noteq> data_name d)
        \<longrightarrow> (\<exists>r. getMetricByName (K6OutputSanitizer items) (data_name d) = Some r
               \<and> type r = typeName (data_type d)
               \<and> unit r = getUnitFromContains (data_contains d)
               \<and> description r = getMetricDescription (data_name d)))"
proof (intro conjI allI impI)
  show "distinct (map name (getSanitizedOutput (K6OutputSanitizer items)))"
    using distinct_names [OF wfMetrics_processData]
    by (simp add: getSanitizedOutput_def K6OutputSanitizer_def)
next
  fix pre m d post
  assume h: "items = pre @ Metric m d # post
        \<and> (\<forall>m' d'. Metric m' d' \<in> set pre \<longrightarrow> data_name d' \<noteq> data_name d)"
  then have "find (\<lambda>x. data_name x = data_name d) (definitionsOf items) = Some d"
    by (simp add: find_first_definition)
  then have "map_of (definitionPass items []) (data_name d) = Some (skeleton d)"
    by (simp add: map_of_definitionPass)
  then have "getMetricByName (K6OutputSanitizer items) (data_name d)
      = Some (summarize ((skeleton d)\<lparr>points := points (skeleton d) @ pointsFor (data_name d) items\<rparr>))"
    by (simp add: getMetricByName_def K6OutputSanitizer_def processData_def
        map_of_calculateSummaries map_of_pointPass)
  then show "\<exists>r. getMetricByName (K6OutputSanitizer items) (data_name d) = Some r
               \<and> type r = typeName (data_type d)
               \<and> unit r = getUnitFromContains (data_contains d)
               \<and> description r = getMetricDescription (data_name d)"
    by (simp add: skeleton_def)
qed

theorem one_report_per_name_first_definition_wins_witness:
  "distinct (map name (getSanitizedOutput (K6OutputSanitizer sampleEvents)))
   \<and> (\<exists>r. getMetricByName (K6OutputSanitizer sampleEvents) ''a'' = Some r
          \<and> type r = ''trend'' \<and> unit r = Some ''ms'')"
proof -
  let ?d = "\<lparr>data_name = ''a'', data_type = Trend, data_contains = Time\<rparr>"
  let ?pre = "[Point ''x'' \<lparr>data_time = ''t0'', data_value = Finite 5,
                              data_tags = [(''k'', ''v'')]\<rparr>]"
  let ?post = "[Point ''a'' \<lparr>data_time = ''t1'', data_value = Finite 1, data_tags = []\<rparr>,
     Metric ''a'' \<lparr>data_name = ''a'', data_type = Counter, data_contains = Data\<rparr>,
     Metric ''vus'' \<lparr>data_name = ''vus'', data_type = Gauge, data_contains = Default\<rparr>,
     Point ''a'' \<lparr>data_time = ''t2'', data_value = Finite 2, data_tags = []\<rparr>,
     Point ''a'' \<lparr>data_time = ''t3'', data_value = Finite 3, data_tags = []\<rparr>]"
  have split: "sampleEvents = ?pre @ Metric ''a'' ?d # ?post
      \<and> (\<forall>m' d'. Metric m' d' \<in> set ?pre \<longrightarrow> data_name d' \<noteq> data_name ?d)"
    by (simp add: sampleEvents_def)
  note both = one_report_per_name_first_definition_wins [of sampleEvents]
  from both have "distinct (map name (getSanitizedOutput (K6OutputSanitizer sampleEvents)))"
    by (rule conjunct1)
  moreover from both [THEN conjunct2, rule_format, OF split]
  have "\<exists>r. getMetricByName (K6OutputSanitizer sampleEvents) ''a'' = Some r
          \<and> type r = ''trend'' \<and> unit r = Some ''ms''"
    by auto
  ultimately show ?thesis by simp
qed

subsection \<open>Summaries\<close>

lemma tenth_sum:
  "foldl numberAdd (Finite 0) [Finite tenth, Finite tenth, Finite tenth]
     = Finite (1351079888211149 / 4503599627370496)"
  by (simp add: tenth_def double_eval Let_def)

lemma tenth_avg:
  "divideByLength (Finite (1351079888211149 / 4503599627370496)) 3
     = Finite (7205759403792795 / 72057594037927936)"
  by (simp add: double_eval Let_def)

text \<open>
  Claim C5, as the spec states it, fails: the avg of a summary is not always the
  arithmetic mean of the point values. For three points that all carry the double
  nearest to one tenth, the mean is that double, and the summary has the next double
  above it as avg, which is greater than its max.
\<close>

theorem summary_avg_not_the_mean:
  "map (map_option avg) (map summary (getSanitizedOutput (K6OutputSanitizer tenthEvents)))
     = [Some (Finite (7205759403792795 / 72057594037927936))]
   \<and> (tenth + tenth + tenth) / 3 = tenth
   \<and> tenth < 7205759403792795 / 72057594037927936
   \<and> map (map_option max') (map summary (getSanitizedOutput (K6OutputSanitizer tenthEvents)))
     = [Some (Finite tenth)]"
proof -
  have out: "map summary (getSanitizedOutput (K6OutputSanitizer tenthEvents))
      = [Some (summaryOf [Finite tenth, Finite tenth, Finite tenth])]"
    by (simp add: getSanitizedOutput_def K6OutputSanitizer_def processData_def tenthEvents_def
        calculateSummaries_def addDataPoint_def Let_def implicitMetric_def toReportPoint_def
        summarize_def)
  have a: "avg (summaryOf [Finite tenth, Finite tenth, Finite tenth])
      = Finite (7205759403792795 / 72057594037927936)"
    unfolding summaryOf_def using tenth_sum tenth_avg by simp
  have m: "max' (summaryOf [Finite tenth, Finite tenth, Finite tenth]) = Finite tenth"
    by (simp add: summaryOf_def mathMax_def higher_def)
  have e: "(tenth + tenth + tenth) / 3 = tenth" by simp
  have l: "tenth < 7205759403792795 / 72057594037927936" by (simp add: tenth_def)
  from a m e l show ?thesis unfolding out by simp
qed

text \<open>
  Claim C5, amended. Every report of the output with at least one point has a summary
  whose count is the number of points and whose avg is what double arithmetic gives
  for the mean: the point values added from the left, starting at zero, each sum
  rounded to a double, and the total divided by the count and rounded again. When no
  point value is \<^verbatim>\<open>NaN\<close>, min is the least and max the greatest point value. A report
  without points has no summary.
\<close>

theorem summary_present_iff_points:
  assumes "r \<in> set (getSanitizedOutput (K6OutputSanitizer items))"
  shows "(points r \<noteq> [] \<longrightarrow>
            (\<exists>s. summary r = Some s
               \<and> count s = length (points r)
               \<and> avg s = divideByLength (foldl numberAdd (Finite 0) (map value' (points r)))
                           (length (points r))
               \<and> (NaN \<notin> set (map value' (points r)) \<longrightarrow>
                    min' s \<in> set (map value' (points r))
                  \<and> (\<forall>v \<in> set (map value' (points r)). \<not> dless v (min' s))
                  \<and> max' s \<in> set (map value' (points r))
                  \<and> (\<forall>v \<in> set (map value' (points r)). \<not> dless (max' s) v))))
       \<and> (points r = [] \<longrightarrow> summary r = None)"
proof -
  from assms obtain p where "p \<in> set (processData items)" and "r = snd p"
    by (auto simp add: getSanitizedOutput_def K6OutputSanitizer_def)
  then have s: "summary r
      = (if points r = [] then None else Some (summaryOf (map value' (points r))))"
    by (simp add: processData_summary)
  show ?thesis
  proof (cases "points r = []")
    case True
    with s show ?thesis by simp
  next
    case False
    let ?vs = "map value' (points r)"
    from False have ne: "?vs \<noteq> []" by simp
    from s False have sm: "summary r = Some (summaryOf ?vs)" by simp
    have c: "count (summaryOf ?vs) = length (points r)" by (simp add: summaryOf_def)
    have a: "avg (summaryOf ?vs)
        = divideByLength (foldl numberAdd (Finite 0) ?vs) (length (points r))"
      by (simp add: summaryOf_def)
    have mm: "NaN \<notin> set ?vs \<longrightarrow>
                    min' (summaryOf ?vs) \<in> set ?vs
                  \<and> (\<forall>v \<in> set ?vs. \<not> dless v (min' (summaryOf ?vs)))
                  \<and> max' (summaryOf ?vs) \<in> set ?vs
                  \<and> (\<forall>v \<in> set ?vs. \<not> dless (max' (summaryOf ?vs)) v)"
    proof
      assume nan: "NaN \<notin> set ?vs"
      from mathMin_least [OF ne nan] mathMax_greatest [OF ne nan]
      show "min' (summaryOf ?vs) \<in> set ?vs
                  \<and> (\<forall>v \<in> set ?vs. \<not> dless v (min' (summaryOf ?vs)))
                  \<and> max' (summaryOf ?vs) \<in> set ?vs
                  \<and> (\<forall>v \<in> set ?vs. \<not> dless (max' (summaryOf ?vs)) v)"
        by (simp add: summaryOf_def)
    qed
    from False sm c a mm show ?thesis by blast
  qed
qed

theorem summary_present_iff_points_witness:
  "(\<exists>r \<in> set (getSanitizedOutput (K6OutputSanitizer sampleEvents)).
       map value' (points r) = [Finite 1, Finite 2, Finite 3]
       \<and> (\<exists>s. summary r = Some s \<and> count s = 3 \<and> avg s = Finite 2
              \<and> min' s = Finite 1 \<and> max' s = Finite 3))
   \<and> (\<exists>r \<in> set (getSanitizedOutput (K6OutputSanitizer sampleEvents)).
       points r = [] \<and> summary r = None)"
proof -
  let ?out = "getSanitizedOutput (K6OutputSanitizer sampleEvents)"
  have len: "length ?out = 3"
    by (simp add: getSanitizedOutput_def K6OutputSanitizer_def processData_def sampleEvents_def
        calculateSummaries_def addMetricDefinition_def addDataPoint_def Let_def)
  have p0: "map value' (points (?out ! 0)) = [Finite 1, Finite 2, Finite 3]"
    by (simp add: getSanitizedOutput_def K6OutputSanitizer_def processData_def sampleEvents_def
        calculateSummaries_def addMetricDefinition_def addDataPoint_def Let_def
        implicitMetric_def toReportPoint_def)
  have p1: "points (?out ! 1) = []"
    by (simp add: getSanitizedOutput_def K6OutputSanitizer_def processData_def sampleEvents_def
        calculateSummaries_def addMetricDefinition_def addDataPoint_def Let_def
        implicitMetric_def toReportPoint_def)
  have m0: "?out ! 0 \<in> set ?out" and m1: "?out ! 1 \<in> set ?out"
    using len by simp_all
  from p0 have ne: "points (?out ! 0) \<noteq> []" by auto
  from p0 have l0: "length (points (?out ! 0)) = 3"
    by (metis length_map length_Cons list.size(3) numeral_3_eq_3)
  have nan: "NaN \<notin> set (map value' (points (?out ! 0)))" unfolding p0 by simp
  have sum: "divideByLength (foldl numberAdd (Finite 0) [Finite 1, Finite 2, Finite 3]) 3
      = Finite 2"
    by (simp add: double_eval Let_def)
  from summary_present_iff_points [OF m0] ne nan obtain s where
    s: "summary (?out ! 0) = Some s" and c: "count s = length (points (?out ! 0))"
    and a: "avg s = divideByLength (foldl numberAdd (Finite 0) (map value' (points (?out ! 0))))
                           (length (points (?out ! 0)))"
    and mn: "min' s \<in> set (map value' (points (?out ! 0)))"
    and mnl: "\<forall>v \<in> set (map value' (points (?out ! 0))). \<not> dless v (min' s)"
    and mx: "max' s \<in> set (map value' (points (?out ! 0)))"
    and mxl: "\<forall>v \<in> set (map value' (points (?out ! 0))). \<not> dless (max' s) v"
    by blast
  from c l0 have c3: "count s = 3" by simp
  from a have a2: "avg s = Finite 2" unfolding p0 l0 using sum by simp
  from mn mnl have mn1: "min' s = Finite 1" unfolding p0 by auto
  from mx mxl have mx3: "max' s = Finite 3" unfolding p0 by auto
  from summary_present_iff_points [OF m1] p1 have s1: "summary (?out ! 1) = None"
    by blast
  from m0 p0 s c3 a2 mn1 mx3
  have "\<exists>r \<in> set ?out. map value' (points r) = [Finite 1, Finite 2, Finite 3]
       \<and> (\<exists>s. summary r = Some s \<and> count s = 3 \<and> avg s = Finite 2
              \<and> min' s = Finite 1 \<and> max' s = Finite 3)"
    by (intro bexI [of _ "?out ! 0"]) auto
  moreover from m1 p1 s1 have "\<exists>r \<in> set ?out. points r = [] \<and> summary r = None"
    by (intro bexI [of _ "?out ! 1"] conjI)
  ultimately show ?thesis by (rule conjI)
qed

subsection \<open>Minimal output\<close>

text \<open>
  For every name other than \<^verbatim>\<open>__proto__\<close>: when the processed state holds a report
  without points under the name \<open>n\<close>, the minimal output has an entry for \<open>n\<close> whose
  last value and summary are both absent and whose unit is the unit of the report.
\<close>

lemma minimal_output_of_empty_report:
  assumes "getMetricByName (K6OutputSanitizer items) n = Some r"
    and "points r = []"
    and "n \<noteq> ''__proto__''"
  shows "map_of (toMinimalOutput (K6OutputSanitizer items)) n
           = Some \<lparr>msummary = None, lastValue = None, munit = unit r\<rparr>"
proof -
  from assms(1) have look: "map_of (processData items) n = Some r"
    by (simp add: getMetricByName_def K6OutputSanitizer_def)
  then have mem: "(n, r) \<in> set (processData items)" by (rule map_of_SomeD)
  from processData_summary [OF mem] assms(2) have "summary r = None" by simp
  moreover have "map_of (toMinimalOutput (K6OutputSanitizer items)) n = Some (minimalOf r)"
    using look
    by (simp add: toMinimalOutput_def K6OutputSanitizer_def
        map_of_minimal_fold [OF wfMetrics_processData assms(3)])
  ultimately show ?thesis
    using assms(2) by (simp add: minimalOf_def lastPointValue_def)
qed

text \<open>
  Claim C10 says that the minimal output has an entry for every report without points.
  \<^verbatim>\<open>toMinimalOutput\<close> fills a plain object with \<^verbatim>\<open>minimal[metric.name] = ...\<close>, so for
  a report named \<^verbatim>\<open>__proto__\<close> the assignment runs the inherited setter and writes no
  entry, whereas the reports themselves live in a \<^verbatim>\<open>Map\<close>, which holds that name like
  any other. At the events \<open>protoEvents\<close> the processed state has reports without
  points for \<open>vus\<close> and for \<^verbatim>\<open>__proto__\<close>, and the minimal output has the entry for
  \<open>vus\<close> only.
\<close>

theorem toMinimalOutput_omits_proto_name:
  "map name (getSanitizedOutput (K6OutputSanitizer protoEvents)) = [''vus'', ''__proto__'']
   \<and> map points (getSanitizedOutput (K6OutputSanitizer protoEvents)) = [[], []]
   \<and> toMinimalOutput (K6OutputSanitizer protoEvents)
     = [(''vus'', \<lparr>msummary = None, lastValue = None, munit = None\<rparr>)]"
  by (simp add: getSanitizedOutput_def toMinimalOutput_def K6OutputSanitizer_def
      processData_def protoEvents_def calculateSummaries_def addMetricDefinition_def
      Let_def summarize_def assignProperty_def lastPointValue_def)

section \<open>Merge utility: properties\<close>

lemma map_of_mergeKeys:
  "distinct (map fst src) \<Longrightarrow>
   map_of (mergeKeys target src result) k =
     (case map_of src k of
        None \<Rightarrow> map_of result k
      | Some v \<Rightarrow> if k = ''__proto__'' \<and> map_of result k = None then None
                 else Some (mergedValue target k v))"
proof (induction src arbitrary: result)
  case Nil
  then show ?case by simp
next
  case (Cons p src)
  obtain key v where p: "p = (key, v)" by (cases p)
  from Cons.prems p have d: "distinct (map fst src)" and fresh: "map_of src key = None"
    by (auto simp add: map_of_eq_None_iff)
  show ?case
  proof (cases "k = key")
    case True
    with Cons.IH [OF d] fresh show ?thesis
      by (auto simp add: p update_conv' mergedValue_def)
  next
    case False
    with Cons.IH [OF d] show ?thesis
      by (simp add: p update_conv' split: option.splits)
  qed
qed

lemma map_of_deepMerge:
  "distinct (map fst source) \<Longrightarrow>
   map_of (deepMerge target source) k =
     (case map_of source k of
        None \<Rightarrow> map_of target k
      | Some v \<Rightarrow> if k = ''__proto__'' \<and> map_of target k = None then None
                 else Some (mergedValue target k v))"
  by (simp add: deepMerge.simps map_of_mergeKeys)

lemma getProp_own: "map_of ob k = Some v \<Longrightarrow> getProp ob k = v"
  by (simp add: getProp_def)

lemma getProp_Obj: "getProp ob k = Obj fs \<Longrightarrow> map_of ob k = Some (Obj fs)"
  by (auto simp add: getProp_def split: option.splits if_splits)

text \<open>
  For trees \<open>t\<close> and \<open>s\<close> and a key \<open>k\<close> of \<open>s\<close> that is not a \<^verbatim>\<open>__proto__\<close> missing
  from \<open>t\<close>: when \<open>t[k]\<close> and \<open>s[k]\<close> are both plain objects, the merge holds their
  merge at \<open>k\<close>; in every other case, arrays and primitives included, it holds \<open>s[k]\<close>
  as it is. Merging \<open>{a: [1, 2]}\<close> with \<open>{a: [3]}\<close> gives \<open>{a: [3]}\<close>.
\<close>

lemma deepMerge_per_key:
  assumes "distinct (map fst s)" and "k \<in> fst ` set s"
    and "k = ''__proto__'' \<longrightarrow> k \<in> fst ` set t"
  shows "(\<forall>t' s'. getProp t k = Obj t' \<and> getProp s k = Obj s'
            \<longrightarrow> getProp (deepMerge t s) k = Obj (deepMerge t' s'))
       \<and> (\<not> (isObject (getProp t k) \<and> isObject (getProp s k))
            \<longrightarrow> getProp (deepMerge t s) k = getProp s k)
       \<and> deepMerge [(''a'', Arr [Num 1, Num 2])] [(''a'', Arr [Num 3])] = [(''a'', Arr [Num 3])]"
proof -
  from assms(2) obtain v where v: "map_of s k = Some v"
    by (metis map_of_eq_None_iff not_Some_eq)
  then have sk: "getProp s k = v" by (rule getProp_own)
  have own: "\<not> (k = ''__proto__'' \<and> map_of t k = None)"
    using assms(3) by (auto simp add: map_of_eq_None_iff)
  have "map_of (deepMerge t s) k = Some (mergedValue t k v)"
    using assms(1) v own by (simp add: map_of_deepMerge)
  then have merged: "getProp (deepMerge t s) k = mergedValue t k v" by (rule getProp_own)
  show ?thesis
  proof (intro conjI allI impI)
    fix t' s'
    assume h: "getProp t k = Obj t' \<and> getProp s k = Obj s'"
    then have "map_of t k = Some (Obj t')" by (simp add: getProp_Obj)
    with h sk show "getProp (deepMerge t s) k = Obj (deepMerge t' s')"
      by (simp add: merged mergedValue_def)
  next
    assume h: "\<not> (isObject (getProp t k) \<and> isObject (getProp s k))"
    have "mergedValue t k v = v"
    proof (cases "map_of t k")
      case None
      then show ?thesis by (simp add: mergedValue_def)
    next
      case (Some w)
      with h sk have "\<not> (isObject w \<and> isObject v)" by (simp add: getProp_def)
      with Some show ?thesis
        by (cases w; cases v) (simp_all add: mergedValue_def)
    qed
    with sk show "getProp (deepMerge t s) k = getProp s k" by (simp add: merged)
  next
    show "deepMerge [(''a'', Arr [Num 1, Num 2])] [(''a'', Arr [Num 3])] = [(''a'', Arr [Num 3])]"
      by (simp add: deepMerge.simps)
  qed
qed

text \<open>
  Claim C8 says that for every key \<open>k\<close> of the source, \<open>deepMerge(t, s)[k]\<close> is
  \<open>s[k]\<close> unless both sides hold plain objects there. The loop writes with
  \<^verbatim>\<open>result[key] = value\<close>, so for a source that has an own key \<^verbatim>\<open>__proto__\<close>, as
  \<^verbatim>\<open>JSON.parse\<close> produces, and a target without one, the write runs the inherited
  setter: the result gets no such property, and with a string as value its
  \<^verbatim>\<open>__proto__\<close> still reads as \<^verbatim>\<open>Object.prototype\<close>. The other keys of the same
  source are merged as the claim says.
\<close>

theorem deepMerge_proto_key_not_assigned:
  "deepMerge [(''a'', Num 1)] [(''__proto__'', Str ''v''), (''a'', Num 2)] = [(''a'', Num 2)]
   \<and> getProp [(''__proto__'', Str ''v''), (''a'', Num 2)] ''__proto__'' = Str ''v''
   \<and> getProp (deepMerge [(''a'', Num 1)] [(''__proto__'', Str ''v''), (''a'', Num 2)])
        ''__proto__''
     = Inherited ''__proto__''"
  by (simp add: deepMerge.simps getProp_def objectPrototypeKeys_def)

lemma deepMerge_self_aux:
  "(t = s \<longrightarrow> wellFormed (Obj s) \<longrightarrow> deepMerge t s = s)"
  "((\<forall>p \<in> set src. map_of target (fst p) = Some (snd p) \<and> wellFormed (snd p))
      \<longrightarrow> result = target \<longrightarrow> mergeKeys target src result = target)"
proof (induction t s and target src result rule: deepMerge_mergeKeys.induct)
  case (1 target source)
  show ?case
  proof (intro impI)
    assume eq: "target = source" and wf: "wellFormed (Obj source)"
    then have "\<forall>p \<in> set source. map_of target (fst p) = Some (snd p) \<and> wellFormed (snd p)"
      by auto
    with 1 eq show "deepMerge target source = source" by (simp add: deepMerge.simps)
  qed
next
  case (2 target result)
  then show ?case by simp
next
  case (3 target key v keys result)
  show ?case
  proof (intro impI)
    assume h: "\<forall>p \<in> set ((key, v) # keys). map_of target (fst p) = Some (snd p) \<and> wellFormed (snd p)"
      and r: "result = target"
    then have look: "map_of target key = Some v" and wfv: "wellFormed v" by auto
    have own: "\<not> (key = ''__proto__'' \<and> map_of result key = None)"
      using look r by simp
    have same: "(case (map_of target key, v) of
             (Some (Obj t), Obj s) \<Rightarrow> Obj (deepMerge t s)
           | _ \<Rightarrow> v) = v"
    proof (cases v)
      case (Obj fs)
      with "3.IH"(1) [OF own, of "Some v" v v fs fs] look wfv have "deepMerge fs fs = fs"
        by simp
      with look Obj show ?thesis by simp
    qed (simp_all add: look)
    have "AList.update key v result = result"
      using look r by (simp add: update_triv)
    with "3.IH"(2) h r same own show "mergeKeys target ((key, v) # keys) result = target"
      by simp
  qed
qed

text \<open>
  Claim C9. Merging a tree onto itself gives the same tree: \<open>deepMerge(x, x)\<close> is
  \<open>x\<close>, for every tree \<open>x\<close> that stands for a JavaScript object.
\<close>

theorem deepMerge_idempotent:
  "wellFormed (Obj x) \<Longrightarrow> deepMerge x x = x"
  using deepMerge_self_aux(1) [of x x] by simp

theorem deepMerge_idempotent_witness:
  "wellFormed (Obj [(''options'', Obj [(''vus'', Num 5), (''tags'', Arr [Str ''a''])]),
                    (''scenario'', Null)])
   \<and> deepMerge [(''options'', Obj [(''vus'', Num 5), (''tags'', Arr [Str ''a''])]),
                (''scenario'', Null)]
               [(''options'', Obj [(''vus'', Num 5), (''tags'', Arr [Str ''a''])]),
                (''scenario'', Null)]
     = [(''options'', Obj [(''vus'', Num 5), (''tags'', Arr [Str ''a''])]),
        (''scenario'', Null)]"
proof -
  have wf: "wellFormed (Obj [(''options'', Obj [(''vus'', Num 5), (''tags'', Arr [Str ''a''])]),
                    (''scenario'', Null)])"
    by simp
  from deepMerge_idempotent [OF wf] wf show ?thesis by simp
qed

section \<open>Adapter pipeline: properties\<close>

subsection \<open>Registration\<close>

text \<open>
  Claim C6, as the spec states it, fails: registering with the config \<open>0\<close> stores
  \<^verbatim>\<open>undefined\<close> under the key, not \<open>0\<close>, because the source stores
  \<^verbatim>\<open>config || undefined\<close>.
\<close>

theorem addAdapter_falsy_config_not_stored:
  "getConfig ''k'' (fst (addAdapter ''k'' quick (Num 0) samplePipeline sampleStore))
                   (snd (addAdapter ''k'' quick (Num 0) samplePipeline sampleStore))
     \<noteq> Num 0"
  by (simp add: getConfig_def getProp_def addAdapter_def newAdapters_def newConfig_def
      samplePipeline_def sampleStore_def update_conv')

text \<open>
  Claim C6, amended. For a pipeline \<open>p\<close> whose registries are objects of the store,
  \<open>addAdapter k a c\<close> returns a pipeline \<open>p'\<close> whose adapter registry is that of
  \<open>p\<close> with \<open>a\<close> written at \<open>k\<close>, and whose config registry is that of \<open>p\<close> with \<open>c\<close>
  written at \<open>k\<close> when \<open>c\<close> is truthy and \<^verbatim>\<open>undefined\<close> written there otherwise. The
  registries of \<open>p\<close> are the same after the call, and a later \<open>setConfig\<close> on \<open>p'\<close>
  does not reach them. The adapter is stored, not executed: the returned pipeline and
  all config objects are the same whichever adapter is registered.
\<close>

theorem addAdapter_frame:
  assumes "adapters p < nextRef s" and "config p < nextRef s"
    and "addAdapter k a c p s = (p', s')"
  shows "adapterObjects s' (adapters p') = AList.update k a (adapterObjects s (adapters p))
       \<and> configObjects s' (config p')
           = AList.update k (if truthy c then c else Undefined) (configObjects s (config p))
       \<and> adapterObjects s' (adapters p) = adapterObjects s (adapters p)
       \<and> configObjects s' (config p) = configObjects s (config p)
       \<and> (\<forall>k' v. configObjects (snd (setConfig k' v p' s')) (config p)
                   = configObjects s (config p))
       \<and> (\<forall>a'. fst (addAdapter k a' c p s) = p'
               \<and> configObjects (snd (addAdapter k a' c p s)) = configObjects s')"
  using assms
  by (auto simp add: addAdapter_def newAdapters_def newConfig_def setConfig_def Let_def)

theorem addAdapter_frame_witness:
  "adapters samplePipeline < nextRef sampleStore
   \<and> map fst (adapterObjects (snd (addAdapter ''e'' slow (Str ''cfg'') samplePipeline sampleStore))
        (adapters (fst (addAdapter ''e'' slow (Str ''cfg'') samplePipeline sampleStore))))
       = [''a'', ''b'', ''c'', ''d'', ''e'']
   \<and> getConfig ''e'' (fst (addAdapter ''e'' slow (Str ''cfg'') samplePipeline sampleStore))
        (snd (addAdapter ''e'' slow (Str ''cfg'') samplePipeline sampleStore)) = Str ''cfg''
   \<and> map fst (adapterObjects (snd (addAdapter ''e'' slow (Str ''cfg'') samplePipeline sampleStore))
        (adapters samplePipeline)) = [''a'', ''b'', ''c'', ''d'']"
proof -
  obtain p' s' where r: "addAdapter ''e'' slow (Str ''cfg'') samplePipeline sampleStore = (p', s')"
    by (cases "addAdapter ''e'' slow (Str ''cfg'') samplePipeline sampleStore")
  have h1: "adapters samplePipeline < nextRef sampleStore"
    and h2: "config samplePipeline < nextRef sampleStore"
    by (simp_all add: samplePipeline_def sampleStore_def)
  note frame = addAdapter_frame [OF h1 h2 r]
  have a': "adapterObjects s' (adapters p')
      = AList.update ''e'' slow (adapterObjects sampleStore (adapters samplePipeline))"
    using frame by blast
  have c': "configObjects s' (config p')
      = AList.update ''e'' (Str ''cfg'') (configObjects sampleStore (config samplePipeline))"
    using frame by simp
  have a: "adapterObjects s' (adapters samplePipeline)
      = adapterObjects sampleStore (adapters samplePipeline)"
    using frame by blast
  have regs: "adapterObjects sampleStore (adapters samplePipeline)
      = [(''a'', slow), (''b'', quick), (''c'', quick), (''d'', quick)]"
    by (simp add: sampleStore_def samplePipeline_def)
  have e1: "map fst (adapterObjects s' (adapters p')) = [''a'', ''b'', ''c'', ''d'', ''e'']"
    unfolding a' regs by simp
  have e2: "getConfig ''e'' p' s' = Str ''cfg''"
    by (simp add: getConfig_def getProp_def c' update_conv')
  have e3: "map fst (adapterObjects s' (adapters samplePipeline)) = [''a'', ''b'', ''c'', ''d'']"
    unfolding a regs by simp
  show ?thesis
    using h1 e1 e2 e3 by (simp add: r)
qed

subsection \<open>Execution\<close>




lemma settledAs_simps [simp]:
  "settledAs None v \<longleftrightarrow> v = None"
  "settledAs (Some q) v \<longleftrightarrow> (\<exists>x. outcome q = Fulfilled x \<and> v = Some x)"
  by (simp_all add: settledAs_def split: settled.splits)

lemma fulfils_simps [simp]:
  "fulfils None"
  "fulfils (Some q) \<longleftrightarrow> (\<exists>x. outcome q = Fulfilled x)"
  by (simp_all add: fulfils_def split: settled.splits)











subsection \<open>Order of execution\<close>

text \<open>
  Claim C1 says that without \<^verbatim>\<open>runInParallel\<close> an adapter is not started before
  the promise of the adapter registered before it has settled, and that the adapters
  after a rejecting one are not started. The source builds \<^verbatim>\<open>promises\<close> with a
  \<^verbatim>\<open>map\<close> that calls \<^verbatim>\<open>run\<close> of every adapter before the first \<^verbatim>\<open>await\<close>; the
  loop of the sequential branch only awaits promises that are already running. At a
  pipeline with the adapters \<open>a\<close>, whose promise rejects two turns after the call,
  and \<open>b\<close>, run without options: \<open>b\<close> is started at turn \<open>0\<close>, before the promise
  of \<open>a\<close> settles at turn \<open>2\<close>, and \<open>b\<close> has been started although \<open>a\<close> rejects.
\<close>

theorem sequential_run_starts_every_adapter_first:
  "calls (runPipeline [(''a'', failing), (''b'', quick)] [(''a'', Num 1), (''b'', Num 1)]
            None noOptions)
     = [(''a'', \<lparr>startedAt = 0, settlesAt = 2, outcome = Rejected ''boom''\<rparr>),
        (''b'', \<lparr>startedAt = 0, settlesAt = 1, outcome = Fulfilled 20\<rparr>)]
   \<and> returned (runPipeline [(''a'', failing), (''b'', quick)] [(''a'', Num 1), (''b'', Num 1)]
                 None noOptions)
     = Inl ''boom''"
  by (simp add: runPipeline_def finalConfig_def deepMerge.simps Let_def startAdapter_def
      getProp_def failing_def quick_def noOptions_def)

end
